theory Spec2Isabelle
  imports Main
begin

section \<open>The clinic database: rows, tables and errors\<close>

text \<open>
  The booking and queue core of the repository is PL/pgSQL over four tables
  (\<^verbatim>\<open>doctors\<close>, \<^verbatim>\<open>time_slots\<close>, \<^verbatim>\<open>appointments\<close>, \<^verbatim>\<open>queue_status\<close>).
  A table is the list of its rows, in insertion order. Only the columns that the
  booking and queue functions and the slot trigger read or write are kept; the
  other columns (notes, fees, audit columns, timestamps of day resolution or finer)
  are never read by that code. A \<^verbatim>\<open>UUID\<close> is a natural number, a
  \<^verbatim>\<open>DATE\<close> a day number, \<^verbatim>\<open>CURRENT_DATE\<close> the parameter \<open>today\<close>.
  The columns kept are taken to hold a value (those that are nullable have a
  default and are always written by the code below); a missing row or value that
  the code can meet is an \<open>option\<close>. SQL \<^verbatim>\<open>INTEGER\<close> is \<open>int\<close>: the sequence
  numbers that the functions produce have at most three digits.
\<close>

type_synonym uuid = nat
type_synonym date = int
type_synonym timestamptz = int

datatype appointment_status =
  pending | confirmed | reminder_sent | arrived | in_consultation
  | completed | no_show | cancelled | rescheduled

record doctor =
  d_id :: uuid
  d_created_at :: timestamptz

record time_slot =
  ts_id :: uuid
  ts_doctor_id :: uuid
  slot_date :: date
  is_available :: bool
  is_blocked :: bool
  max_patients :: int
  booked_count :: int

text \<open>\<open>created_at\<close> of an appointment holds \<^verbatim>\<open>DATE(created_at)\<close>, the only
  way the SQL functions read the column.\<close>

record appointment =
  a_id :: uuid
  patient_id :: uuid
  doctor_id :: uuid
  time_slot_id :: uuid
  queue_number :: string
  queue_sequence :: int
  queue_date :: date
  status :: appointment_status
  created_at :: date

record queue_status_row =
  qs_doctor_id :: uuid
  current_queue_number :: "string option"
  current_queue_sequence :: "int option"
  current_patient_id :: "uuid option"
  current_appointment_id :: "uuid option"

record db =
  patients :: "uuid list"
  doctors :: "doctor list"
  time_slots :: "time_slot list"
  appointments :: "appointment list"
  queue_status :: "queue_status_row list"

text \<open>What PostgreSQL raises: the one \<^verbatim>\<open>RAISE EXCEPTION\<close> of the source with its
  message, the violations of the constraints that the schema declares, by
  constraint (or column) name, and \<^verbatim>\<open>lock_not_available\<close> (SQLSTATE 55P03), the
  error of \<^verbatim>\<open>FOR UPDATE NOWAIT\<close> on a row that another transaction has locked.\<close>

datatype pg_error =
  RaiseException string
  | UniqueViolation string
  | CheckViolation string
  | NotNullViolation string
  | ForeignKeyViolation string
  | LockNotAvailable

section \<open>Text helpers of \<^verbatim>\<open>generate_queue_number\<close>\<close>

text \<open>\<^verbatim>\<open>v_sequence::TEXT\<close>: the decimal digits of an integer.\<close>

function nat_to_text :: "nat \<Rightarrow> string" where
  "nat_to_text n =
     (if n < 10 then [char_of (48 + n)]
      else nat_to_text (n div 10) @ [char_of (48 + n mod 10)])"
  by pat_completeness auto
termination
  by (relation "measure id") auto

declare nat_to_text.simps [simp del]

definition int_to_text :: "int \<Rightarrow> string" where
  "int_to_text i = (if i < 0 then CHR ''-'' # nat_to_text (nat (- i)) else nat_to_text (nat i))"

text \<open>\<^verbatim>\<open>LPAD(s, n, c)\<close> of PostgreSQL: pads on the left up to length \<open>n\<close>, and
  cuts a longer string down to its first \<open>n\<close> characters.\<close>

definition lpad :: "string \<Rightarrow> nat \<Rightarrow> char \<Rightarrow> string" where
  "lpad s n c = (if n \<le> length s then take n s else replicate (n - length s) c @ s)"

text \<open>\<^verbatim>\<open>CAST(SUBSTRING(q FROM '\d+$') AS INTEGER)\<close>: the longest run of digits at
  the end of the text, read as a number; \<^verbatim>\<open>NULL\<close> when the text ends in no digit.\<close>

definition is_digit :: "char \<Rightarrow> bool" where
  "is_digit c = (48 \<le> (of_char c :: nat) \<and> (of_char c :: nat) \<le> 57)"

definition trailing_digits :: "string \<Rightarrow> string" where
  "trailing_digits s = rev (takeWhile is_digit (rev s))"

definition text_to_nat :: "string \<Rightarrow> nat" where
  "text_to_nat s = fold (\<lambda>c n. 10 * n + (of_char c - 48)) s 0"

definition queue_sequence_of :: "string \<Rightarrow> int option" where
  "queue_sequence_of q =
     (let ds = trailing_digits q in if ds = [] then None else Some (int (text_to_nat ds)))"

section \<open>\<^verbatim>\<open>generate_queue_number\<close>\<close>

text \<open>
  \<^verbatim>\<open>SELECT CHR(65 + (ROW_NUMBER() OVER (ORDER BY created_at) - 1)::INTEGER)
  INTO v_prefix FROM doctors WHERE id = p_doctor_id\<close>.
  SQL evaluates \<^verbatim>\<open>WHERE\<close> before the window function: the rows are filtered
  first, the rows that remain are ordered and numbered from 1, and
  \<^verbatim>\<open>SELECT INTO\<close> keeps the first row of the result (\<^verbatim>\<open>NULL\<close> when there is none).
\<close>

definition doctor_prefix :: "doctor list \<Rightarrow> uuid \<Rightarrow> char option" where
  "doctor_prefix ds p_doctor_id =
     (case map (\<lambda>(row_number, d). char_of (65 + (row_number - 1)))
             (enumerate 1 (sort_key d_created_at (filter (\<lambda>d. d_id d = p_doctor_id) ds))) of
        [] \<Rightarrow> None
      | c # _ \<Rightarrow> Some c)"

text \<open>\<^verbatim>\<open>MAX\<close> over a column: \<^verbatim>\<open>NULL\<close> on no rows.\<close>

definition sql_max :: "int list \<Rightarrow> int option" where
  "sql_max xs = (case xs of [] \<Rightarrow> None | x # ys \<Rightarrow> Some (fold max ys x))"

text \<open>\<^verbatim>\<open>SELECT COALESCE(MAX(queue_sequence), 0) + 1 FROM appointments
  WHERE doctor_id = p_doctor_id AND DATE(created_at) = p_date\<close>.\<close>

definition next_sequence :: "appointment list \<Rightarrow> uuid \<Rightarrow> date \<Rightarrow> int" where
  "next_sequence apps p_doctor_id p_date =
     (case sql_max (map queue_sequence
              (filter (\<lambda>a. doctor_id a = p_doctor_id \<and> created_at a = p_date) apps)) of
        None \<Rightarrow> 0
      | Some m \<Rightarrow> m) + 1"

text \<open>\<^verbatim>\<open>v_prefix || LPAD(v_sequence::TEXT, 3, '0')\<close>; the concatenation is
  \<^verbatim>\<open>NULL\<close> when the prefix is.\<close>

definition generate_queue_number :: "db \<Rightarrow> uuid \<Rightarrow> date \<Rightarrow> string option" where
  "generate_queue_number d p_doctor_id p_date =
     (let v_prefix = doctor_prefix (doctors d) p_doctor_id;
          v_sequence = next_sequence (appointments d) p_doctor_id p_date
      in case v_prefix of
           None \<Rightarrow> None
         | Some c \<Rightarrow> Some (c # lpad (int_to_text v_sequence) 3 (CHR ''0'')))"

section \<open>Constraints and the slot-availability trigger\<close>

text \<open>
  The \<^verbatim>\<open>CHECK\<close> constraints of \<^verbatim>\<open>time_slots\<close> that can change their
  verdict after the row was inserted: \<^verbatim>\<open>future_slots_only CHECK (slot_date >= CURRENT_DATE)\<close>
  and \<^verbatim>\<open>valid_capacity CHECK (booked_count <= max_patients)\<close>. PostgreSQL
  evaluates every check constraint of a table on each row that an
  \<^verbatim>\<open>UPDATE\<close> writes. (\<^verbatim>\<open>valid_time_range\<close> reads two columns that no
  modelled statement writes, so a stored row keeps satisfying it.)
\<close>

definition time_slots_check :: "date \<Rightarrow> time_slot \<Rightarrow> pg_error option" where
  "time_slots_check today s =
     (if slot_date s < today then Some (CheckViolation ''future_slots_only'')
      else if max_patients s < booked_count s then Some (CheckViolation ''valid_capacity'')
      else None)"

text \<open>\<^verbatim>\<open>UPDATE time_slots SET ... WHERE id = p_id\<close>: every row with that id is
  rewritten by \<open>f\<close>; the statement fails, and writes nothing, when a rewritten row
  breaks a check constraint.\<close>

definition update_time_slots ::
  "date \<Rightarrow> uuid \<Rightarrow> (time_slot \<Rightarrow> time_slot) \<Rightarrow> time_slot list \<Rightarrow> pg_error + time_slot list" where
  "update_time_slots today p_id f slots =
     (case List.map_filter (\<lambda>s. time_slots_check today (f s))
             (filter (\<lambda>s. ts_id s = p_id) slots) of
        e # _ \<Rightarrow> Inl e
      | [] \<Rightarrow> Inr (map (\<lambda>s. if ts_id s = p_id then f s else s) slots))"

text \<open>The trigger \<^verbatim>\<open>manage_slot_availability\<close> (\<^verbatim>\<open>AFTER INSERT OR UPDATE ON
  appointments FOR EACH ROW\<close>) and its function \<^verbatim>\<open>update_slot_availability\<close>.
  \<^verbatim>\<open>TG_OP\<close> with the rows \<^verbatim>\<open>OLD\<close> and \<^verbatim>\<open>NEW\<close> is the event.\<close>

datatype tg_event = INSERT appointment | UPDATE appointment appointment

definition mark_booked :: "time_slot \<Rightarrow> time_slot" where
  "mark_booked s = s\<lparr>is_available := False, booked_count := booked_count s + 1\<rparr>"

definition mark_freed :: "time_slot \<Rightarrow> time_slot" where
  "mark_freed s = s\<lparr>is_available := True, booked_count := max (booked_count s - 1) 0\<rparr>"

fun update_slot_availability ::
  "date \<Rightarrow> tg_event \<Rightarrow> time_slot list \<Rightarrow> pg_error + time_slot list" where
  "update_slot_availability today (INSERT NEW) slots =
     update_time_slots today (time_slot_id NEW) mark_booked slots"
| "update_slot_availability today (UPDATE OLD NEW) slots =
     (if (status OLD \<noteq> cancelled \<and> status OLD \<noteq> no_show)
         \<and> (status NEW = cancelled \<or> status NEW = no_show)
      then update_time_slots today (time_slot_id NEW) mark_freed slots
      else Inr slots)"

section \<open>\<^verbatim>\<open>INSERT INTO appointments\<close> and \<^verbatim>\<open>book_appointment\<close>\<close>

text \<open>\<^verbatim>\<open>uuid_generate_v4()\<close>: an id that no stored appointment has.\<close>

definition fresh_uuid :: "appointment list \<Rightarrow> uuid" where
  "fresh_uuid apps = Suc (fold max (map a_id apps) 0)"

text \<open>
  The insert of one appointment row, in PostgreSQL's order: the
  \<^verbatim>\<open>BEFORE INSERT\<close> trigger \<^verbatim>\<open>set_queue_number\<close> (it fills a \<^verbatim>\<open>NULL\<close>
  queue number from \<^verbatim>\<open>generate_queue_number(NEW.doctor_id, NEW.queue_date)\<close>), the
  \<^verbatim>\<open>NOT NULL\<close> and \<^verbatim>\<open>CHECK\<close> constraints of the row, the unique indexes
  \<^verbatim>\<open>unique_patient_slot\<close> and \<^verbatim>\<open>unique_queue_number\<close>, the foreign keys, and
  the \<^verbatim>\<open>AFTER INSERT\<close> trigger on the slot. (The audit and patient-statistics
  triggers write other tables only.) An error anywhere aborts the statement and
  the transaction around it: the result is the error alone.
\<close>

definition insert_appointment ::
  "date \<Rightarrow> db \<Rightarrow> uuid \<Rightarrow> uuid \<Rightarrow> uuid \<Rightarrow> string option \<Rightarrow> int option \<Rightarrow> date
     \<Rightarrow> appointment_status \<Rightarrow> pg_error + appointment \<times> db" where
  "insert_appointment today d pat doc slot qn qs qdate st =
     (case (case qn of None \<Rightarrow> generate_queue_number d doc qdate | Some q \<Rightarrow> Some q) of
        None \<Rightarrow> Inl (NotNullViolation ''queue_number'')
      | Some q \<Rightarrow>
          (case qs of
             None \<Rightarrow> Inl (NotNullViolation ''queue_sequence'')
           | Some n \<Rightarrow>
               if n \<le> 0 then Inl (CheckViolation ''valid_queue_sequence'')
               else if list_ex (\<lambda>a. patient_id a = pat \<and> time_slot_id a = slot) (appointments d)
               then Inl (UniqueViolation ''unique_patient_slot'')
               else if list_ex (\<lambda>a. doctor_id a = doc \<and> queue_date a = qdate \<and> queue_number a = q)
                         (appointments d)
               then Inl (UniqueViolation ''unique_queue_number'')
               else if pat \<notin> set (patients d)
               then Inl (ForeignKeyViolation ''appointments_patient_id_fkey'')
               else if doc \<notin> set (map d_id (doctors d))
               then Inl (ForeignKeyViolation ''appointments_doctor_id_fkey'')
               else if slot \<notin> set (map ts_id (time_slots d))
               then Inl (ForeignKeyViolation ''appointments_time_slot_id_fkey'')
               else
                 (let NEW = \<lparr>a_id = fresh_uuid (appointments d), patient_id = pat,
                             doctor_id = doc, time_slot_id = slot, queue_number = q,
                             queue_sequence = n, queue_date = qdate, status = st,
                             created_at = today\<rparr>
                  in case update_slot_availability today (INSERT NEW) (time_slots d) of
                       Inl e \<Rightarrow> Inl e
                     | Inr slots' \<Rightarrow>
                         Inr (NEW, d\<lparr>time_slots := slots',
                                     appointments := appointments d @ [NEW]\<rparr>))))"

text \<open>
  \<^verbatim>\<open>book_appointment(p_patient_id, p_doctor_id, p_slot_id, p_appointment_type, p_notes)\<close>.
  The slot row is read by its id (\<^verbatim>\<open>FOR UPDATE NOWAIT\<close>); the only test before
  the insert is \<^verbatim>\<open>IF NOT FOUND OR NOT v_slot.is_available OR v_slot.is_blocked\<close>,
  which raises \<^verbatim>\<open>'Slot is not available'\<close>. The appointment type and the notes
  are stored and never read. \<^verbatim>\<open>EXCEPTION WHEN OTHERS THEN RAISE\<close> passes every
  error on.
\<close>

definition slot_not_available :: pg_error where
  "slot_not_available = RaiseException ''Slot is not available''"

definition book_appointment ::
  "date \<Rightarrow> db \<Rightarrow> uuid \<Rightarrow> uuid \<Rightarrow> uuid \<Rightarrow> pg_error + appointment \<times> db" where
  "book_appointment today d p_patient_id p_doctor_id p_slot_id =
     (case List.find (\<lambda>s. ts_id s = p_slot_id) (time_slots d) of
        None \<Rightarrow> Inl slot_not_available
      | Some v_slot \<Rightarrow>
          if \<not> is_available v_slot \<or> is_blocked v_slot then Inl slot_not_available
          else
            (let v_queue_number = generate_queue_number d p_doctor_id (slot_date v_slot);
                 v_queue_sequence = Option.bind v_queue_number queue_sequence_of
             in insert_appointment today d p_patient_id p_doctor_id p_slot_id
                  v_queue_number v_queue_sequence (slot_date v_slot) confirmed))"

section \<open>Status updates, \<^verbatim>\<open>advance_queue\<close> and the handler of \<^verbatim>\<open>api/queue/next\<close>\<close>

text \<open>
  \<^verbatim>\<open>UPDATE appointments SET status = st WHERE id = p_id\<close>, the statement by which
  every status change reaches the table. \<open>id\<close> is the primary key, so the row that
  matches is the row \<^verbatim>\<open>OLD\<close> of the \<^verbatim>\<open>AFTER UPDATE\<close> trigger on the slot; a
  trigger error aborts the statement. No row matching is an update of zero rows.
\<close>

definition update_appointment_status ::
  "date \<Rightarrow> db \<Rightarrow> uuid \<Rightarrow> appointment_status \<Rightarrow> pg_error + db" where
  "update_appointment_status today d p_id st =
     (case List.find (\<lambda>a. a_id a = p_id) (appointments d) of
        None \<Rightarrow> Inr d
      | Some OLD \<Rightarrow>
          (case update_slot_availability today (UPDATE OLD (OLD\<lparr>status := st\<rparr>)) (time_slots d) of
             Inl e \<Rightarrow> Inl e
           | Inr slots' \<Rightarrow>
               Inr (d\<lparr>time_slots := slots',
                      appointments :=
                        map (\<lambda>a. if a_id a = p_id then a\<lparr>status := st\<rparr> else a)
                          (appointments d)\<rparr>)))"

text \<open>
  \<^verbatim>\<open>advance_queue(p_doctor_id)\<close>, in its two parts. First the read:
  \<^verbatim>\<open>SELECT * INTO v_next_appointment FROM appointments WHERE doctor_id = p_doctor_id
  AND queue_date = CURRENT_DATE AND status = 'arrived' ORDER BY queue_sequence LIMIT 1\<close>
  (no row lock is taken).
\<close>

definition next_in_queue :: "date \<Rightarrow> db \<Rightarrow> uuid \<Rightarrow> appointment option" where
  "next_in_queue today d p_doctor_id =
     (case sort_key queue_sequence
             (filter (\<lambda>a. doctor_id a = p_doctor_id \<and> queue_date a = today \<and> status a = arrived)
                (appointments d)) of
        [] \<Rightarrow> None
      | a # _ \<Rightarrow> Some a)"

text \<open>Then the two writes: \<^verbatim>\<open>UPDATE appointments SET status = 'in_consultation' ...
  WHERE id = v_next_appointment.id\<close> and \<^verbatim>\<open>UPDATE queue_status SET ... WHERE
  doctor_id = p_doctor_id RETURNING * INTO v_queue_status\<close> (\<^verbatim>\<open>NULL\<close> when the doctor
  has no queue row). The timestamps that the updates also set are not kept.\<close>

definition set_now_serving :: "appointment \<Rightarrow> queue_status_row \<Rightarrow> queue_status_row" where
  "set_now_serving a q =
     q\<lparr>current_queue_number := Some (queue_number a),
       current_queue_sequence := Some (queue_sequence a),
       current_patient_id := Some (patient_id a),
       current_appointment_id := Some (a_id a)\<rparr>"

definition start_consultation ::
  "date \<Rightarrow> db \<Rightarrow> uuid \<Rightarrow> appointment \<Rightarrow> pg_error + queue_status_row option \<times> db" where
  "start_consultation today d p_doctor_id v_next_appointment =
     (case update_appointment_status today d (a_id v_next_appointment) in_consultation of
        Inl e \<Rightarrow> Inl e
      | Inr d1 \<Rightarrow>
          (let rows = map (\<lambda>q. if qs_doctor_id q = p_doctor_id
                                then set_now_serving v_next_appointment q else q)
                        (queue_status d1)
           in Inr (List.find (\<lambda>q. qs_doctor_id q = p_doctor_id) rows,
                   d1\<lparr>queue_status := rows\<rparr>)))"

text \<open>\<^verbatim>\<open>IF NOT FOUND THEN RAISE NOTICE 'No patients in queue'; RETURN NULL\<close>: a
  notice and the value \<^verbatim>\<open>NULL\<close>, not an exception.\<close>

definition advance_queue ::
  "date \<Rightarrow> db \<Rightarrow> uuid \<Rightarrow> pg_error + queue_status_row option \<times> db" where
  "advance_queue today d p_doctor_id =
     (case next_in_queue today d p_doctor_id of
        None \<Rightarrow> Inr (None, d)
      | Some v_next_appointment \<Rightarrow> start_consultation today d p_doctor_id v_next_appointment)"

text \<open>
  The handler of \<^verbatim>\<open>api/queue/next\<close>, the route by which the doctor's screen calls
  the next patient. It reads the next appointment through the client:
  \<^verbatim>\<open>.eq('doctor_id', doctorId).eq('status', 'arrived').gte('created_at', <today>)
  .order('queue_sequence').limit(1).single()\<close>. The filter on the day compares the
  time at which the row was created with the start of today; neither
  \<^verbatim>\<open>queue_date\<close> nor the date of the slot is read. \<^verbatim>\<open>single()\<close> gives no row
  when the result is empty.
\<close>

definition nextAppointment :: "date \<Rightarrow> db \<Rightarrow> uuid \<Rightarrow> appointment option" where
  "nextAppointment today d doctorId =
     (case sort_key queue_sequence
             (filter (\<lambda>a. doctor_id a = doctorId \<and> status a = arrived \<and> today \<le> created_at a)
                (appointments d)) of
        [] \<Rightarrow> None
      | a # _ \<Rightarrow> Some a)"

text \<open>
  \<^verbatim>\<open>if (!nextAppointment) return res.status(404).json({ error: 'No patients in queue' })\<close>.
  Otherwise the handler updates the doctor's queue row (queue number, patient and
  sequence, which the handler calls \<^verbatim>\<open>current_sequence\<close> as the first schema of
  the repository does; the appointment id of the row is not written), then sets the status
  of the appointment with that id to \<^verbatim>\<open>'in_consultation'\<close>, and answers 200 with
  the queue number. Each call of the client is a transaction of its own, and the
  handler does not read the error of either update: a failed update leaves the
  database as it was and the handler goes on. The result is the status code with
  the error message or the queue number, and the database states that the
  handler commits, in order. (The notification that it sends afterwards writes
  none of the tables kept here.)
\<close>

definition handler_queue_next :: "date \<Rightarrow> db \<Rightarrow> uuid \<Rightarrow> (nat \<times> string) \<times> db list" where
  "handler_queue_next today d doctorId =
     (case nextAppointment today d doctorId of
        None \<Rightarrow> ((404, ''No patients in queue''), [])
      | Some a \<Rightarrow>
          (let d1 = d\<lparr>queue_status :=
                        map (\<lambda>q. if qs_doctor_id q = doctorId
                                  then q\<lparr>current_queue_number := Some (queue_number a),
                                         current_queue_sequence := Some (queue_sequence a),
                                         current_patient_id := Some (patient_id a)\<rparr>
                                  else q)
                          (queue_status d)\<rparr>;
               d2 = (case update_appointment_status today d1 (a_id a) in_consultation of
                       Inl e \<Rightarrow> d1
                     | Inr d' \<Rightarrow> d')
           in ((200, queue_number a), [d1, d2])))"

section \<open>The booking handler and \<^verbatim>\<open>lock_time_slot\<close>\<close>

text \<open>
  \<^verbatim>\<open>lock_time_slot(slot_id)\<close>: \<^verbatim>\<open>SELECT * INTO slot FROM time_slots WHERE id =
  slot_id AND is_available = true FOR UPDATE NOWAIT; IF FOUND THEN UPDATE time_slots
  SET is_available = false WHERE id = slot_id; RETURN slot; ELSE RETURN NULL\<close>.
  The row returned is the row as it was read.
\<close>

definition lock_time_slot :: "date \<Rightarrow> db \<Rightarrow> uuid \<Rightarrow> pg_error + time_slot option \<times> db" where
  "lock_time_slot today d slot_id =
     (case List.find (\<lambda>s. ts_id s = slot_id \<and> is_available s) (time_slots d) of
        None \<Rightarrow> Inr (None, d)
      | Some slot \<Rightarrow>
          (case update_time_slots today slot_id (\<lambda>s. s\<lparr>is_available := False\<rparr>) (time_slots d) of
             Inl e \<Rightarrow> Inl e
           | Inr slots' \<Rightarrow> Inr (Some slot, d\<lparr>time_slots := slots'\<rparr>)))"

text \<open>
  The handler of \<^verbatim>\<open>api/appointments/book\<close> calls the database three times, and
  each call of the client is a transaction of its own that commits when it
  returns: \<^verbatim>\<open>rpc('lock_time_slot')\<close>, then the insert of the appointment, then,
  when the insert failed, \<^verbatim>\<open>rpc('unlock_time_slot')\<close>. The handler answers 409
  when the lock call fails or returns no slot, 500 after the unlock, 200 otherwise.
  \<^verbatim>\<open>generateQueueNumber\<close> and \<^verbatim>\<open>unlock_time_slot\<close> are not in the repository:
  the insert (with the queue number it is given) and the unlock are parameters.
  The result is the status code and the database states that the handler
  commits, in order.
\<close>

definition handler_book ::
  "date \<Rightarrow> db \<Rightarrow> uuid \<Rightarrow> (time_slot \<Rightarrow> db \<Rightarrow> pg_error + db) \<Rightarrow> (db \<Rightarrow> db) \<Rightarrow> nat \<times> db list" where
  "handler_book today d slotId insert_row unlock_time_slot =
     (case lock_time_slot today d slotId of
        Inl lockError \<Rightarrow> (409, [])
      | Inr (None, _) \<Rightarrow> (409, [])
      | Inr (Some slot, d1) \<Rightarrow>
          (case insert_row slot d1 of
             Inl apptError \<Rightarrow> (500, [d1, unlock_time_slot d1])
           | Inr d2 \<Rightarrow> (200, [d1, d2])))"

section \<open>Runs of calls\<close>

text \<open>\<open>reserve_calls\<close> issues one \<open>book_appointment\<close> call after the other against
  the same slot, each a transaction: a failed call leaves the database as it was.
  A call is the pair of patient and doctor.\<close>

fun reserve_calls ::
  "date \<Rightarrow> db \<Rightarrow> uuid \<Rightarrow> (uuid \<times> uuid) list \<Rightarrow> (pg_error + appointment) list \<times> db" where
  "reserve_calls today d p_slot_id [] = ([], d)"
| "reserve_calls today d p_slot_id ((pat, doc) # calls) =
     (case book_appointment today d pat doc p_slot_id of
        Inl e \<Rightarrow>
          (case reserve_calls today d p_slot_id calls of (rs, d') \<Rightarrow> (Inl e # rs, d'))
      | Inr (a, d1) \<Rightarrow>
          (case reserve_calls today d1 p_slot_id calls of (rs, d') \<Rightarrow> (Inr a # rs, d')))"

definition succeeded :: "pg_error + 'a \<Rightarrow> bool" where
  "succeeded r = (case r of Inl _ \<Rightarrow> False | Inr _ \<Rightarrow> True)"

text \<open>An appointment holds its slot while it is neither cancelled nor a no-show:
  these are the two statuses on which the trigger frees the slot.\<close>

definition active :: "appointment \<Rightarrow> bool" where
  "active a = (status a \<noteq> cancelled \<and> status a \<noteq> no_show)"



text \<open>The slot trigger run over a sequence of row events, each on its day; an
  event whose slot update breaks a check constraint is rolled back.\<close>

fun run_trigger :: "(date \<times> tg_event) list \<Rightarrow> time_slot list \<Rightarrow> time_slot list" where
  "run_trigger [] slots = slots"
| "run_trigger ((today, ev) # evs) slots =
     (case update_slot_availability today ev slots of
        Inl e \<Rightarrow> run_trigger evs slots
      | Inr slots' \<Rightarrow> run_trigger evs slots')"

text \<open>The bounds of a slot's counter: \<^verbatim>\<open>0 <= booked_count <= max_patients\<close>.\<close>

definition within_capacity :: "time_slot \<Rightarrow> bool" where
  "within_capacity s = (0 \<le> booked_count s \<and> booked_count s \<le> max_patients s)"

section \<open>Concurrent calls against one slot\<close>

text \<open>
  Calls that overlap in time. Both \<open>book_appointment\<close> and \<open>lock_time_slot\<close> read
  the slot row with \<^verbatim>\<open>FOR UPDATE NOWAIT\<close>: the statement locks the row that it
  selects until the transaction of the call ends, and when another transaction
  holds that lock it fails at once with \<^verbatim>\<open>lock_not_available\<close> instead of
  waiting. A call is a reservation (\<open>book_appointment\<close> for a patient and a
  doctor) or a call of \<open>lock_time_slot\<close>; the reply of a call is its error, or the
  appointment created, or what \<open>lock_time_slot\<close> returns (the row, or \<^verbatim>\<open>NULL\<close>).
\<close>

datatype call = Book uuid uuid | LockSlot

datatype reply = Booked appointment | Locked "time_slot option"

text \<open>What a call against slot \<open>p\<close> does when no other transaction is in its way.\<close>

definition run_call :: "date \<Rightarrow> db \<Rightarrow> uuid \<Rightarrow> call \<Rightarrow> pg_error + reply \<times> db" where
  "run_call today d p c =
     (case c of
        Book pat doc \<Rightarrow> map_sum id (\<lambda>(a, d'). (Booked a, d')) (book_appointment today d pat doc p)
      | LockSlot \<Rightarrow> map_sum id (\<lambda>(r, d'). (Locked r, d')) (lock_time_slot today d p))"

text \<open>Whether the locking \<^verbatim>\<open>SELECT\<close> of the call selects a row: \<open>book_appointment\<close>
  selects by \<^verbatim>\<open>id = p_slot_id\<close>, \<open>lock_time_slot\<close> by \<^verbatim>\<open>id = slot_id AND
  is_available = true\<close>. A row that the \<^verbatim>\<open>WHERE\<close> clause rejects is not locked,
  and a lock on it does not stop the statement.\<close>

definition locks_row :: "db \<Rightarrow> uuid \<Rightarrow> call \<Rightarrow> bool" where
  "locks_row d p c =
     (case c of
        Book pat doc \<Rightarrow> list_ex (\<lambda>s. ts_id s = p) (time_slots d)
      | LockSlot \<Rightarrow> list_ex (\<lambda>s. ts_id s = p \<and> is_available s) (time_slots d))"

text \<open>
  The state of a race for slot \<open>p\<close>: the committed database, the call (its index in
  the list of calls) whose transaction holds the lock of the slot row, and the
  replies given so far, oldest first. A schedule is a list of events: \<open>Begin i\<close>
  is the locking \<^verbatim>\<open>SELECT\<close> of call \<open>i\<close>, \<open>Finish i\<close> is the rest of its function
  with the commit or the rollback.
\<close>

datatype event = Begin nat | Finish nat

record race =
  committed :: db
  holder :: "nat option"
  replies :: "(nat \<times> (pg_error + reply)) list"


text \<open>The end of call \<open>i\<close> with the result \<open>r\<close> of its function: an error rolls
  back, a value commits what the function wrote.\<close>

definition finish_with :: "nat \<Rightarrow> pg_error + reply \<times> db \<Rightarrow> race \<Rightarrow> race" where
  "finish_with i r s =
     (case r of
        Inl e \<Rightarrow> s\<lparr>replies := replies s @ [(i, Inl e)]\<rparr>
      | Inr (x, d') \<Rightarrow> s\<lparr>committed := d', replies := replies s @ [(i, Inr x)]\<rparr>)"

text \<open>
  \<open>Begin i\<close>. Every call runs once: an index that is no call, a call that has
  replied and the call that is running are skipped. When the \<^verbatim>\<open>SELECT\<close> selects
  no row there is nothing to lock, and the function runs to its end at once
  (\<open>book_appointment\<close> raises, \<open>lock_time_slot\<close> returns \<^verbatim>\<open>NULL\<close>). When the row is
  locked by another call, \<^verbatim>\<open>NOWAIT\<close> raises \<^verbatim>\<open>lock_not_available\<close>. Otherwise
  the call takes the lock.
\<close>

definition begin_call :: "date \<Rightarrow> uuid \<Rightarrow> call list \<Rightarrow> nat \<Rightarrow> race \<Rightarrow> race" where
  "begin_call today p calls i s =
     (if length calls \<le> i \<or> i \<in> set (map fst (replies s)) \<or> holder s = Some i then s
      else if \<not> locks_row (committed s) p (calls ! i)
      then finish_with i (run_call today (committed s) p (calls ! i)) s
      else if holder s \<noteq> None then s\<lparr>replies := replies s @ [(i, Inl LockNotAvailable)]\<rparr>
      else s\<lparr>holder := Some i\<rparr>)"

text \<open>
  \<open>Finish i\<close>, for the call that holds the lock. Since it took the lock, every
  other call against the slot was refused at its \<^verbatim>\<open>SELECT\<close> or found no row,
  and none has written: the row that the call read is the row stored, and the
  rest of its function computes what the whole function computes on the
  committed database. The lock is released with the commit or the rollback.
\<close>

definition finish_call :: "date \<Rightarrow> uuid \<Rightarrow> call list \<Rightarrow> nat \<Rightarrow> race \<Rightarrow> race" where
  "finish_call today p calls i s =
     (if i < length calls \<and> holder s = Some i
      then finish_with i (run_call today (committed s) p (calls ! i)) (s\<lparr>holder := None\<rparr>)
      else s)"

fun step :: "date \<Rightarrow> uuid \<Rightarrow> call list \<Rightarrow> event \<Rightarrow> race \<Rightarrow> race" where
  "step today p calls (Begin i) s = begin_call today p calls i s"
| "step today p calls (Finish i) s = finish_call today p calls i s"

definition run :: "date \<Rightarrow> uuid \<Rightarrow> call list \<Rightarrow> event list \<Rightarrow> race \<Rightarrow> race" where
  "run today p calls evs s = fold (step today p calls) evs s"

text \<open>A call has won the slot when it created an appointment or got the row from
  \<open>lock_time_slot\<close>. It was refused when it met the lock of another call, or
  \<open>Slot is not available\<close>, or \<^verbatim>\<open>NULL\<close> from \<open>lock_time_slot\<close>.\<close>

fun won :: "pg_error + reply \<Rightarrow> bool" where
  "won (Inr (Booked a)) = True"
| "won (Inr (Locked (Some slot))) = True"
| "won (Inr (Locked None)) = False"
| "won (Inl e) = False"


text \<open>The invariants of a race. No row of slot \<open>p\<close> is flagged available; in the
  replies, oldest first, everything after the first winner is a refusal; once
  there is a winner, the slot is closed; and no call replies twice.\<close>

definition closed :: "uuid \<Rightarrow> db \<Rightarrow> bool" where
  "closed p d = list_all (\<lambda>s. ts_id s \<noteq> p \<or> \<not> is_available s) (time_slots d)"




section \<open>Concrete databases\<close>

text \<open>Small databases on which the functions are run: day 10 is today, doctor 1
  was created before doctor 2, and every slot has capacity 1 unless said otherwise.\<close>

definition slot_one :: time_slot where
  "slot_one = \<lparr>ts_id = 1, ts_doctor_id = 1, slot_date = 10, is_available = True,
               is_blocked = False, max_patients = 1, booked_count = 0\<rparr>"

definition appt_one :: appointment where
  "appt_one = \<lparr>a_id = 1, patient_id = 1, doctor_id = 1, time_slot_id = 1,
               queue_number = ''A001'', queue_sequence = 1, queue_date = 10,
               status = confirmed, created_at = 10\<rparr>"

text \<open>A release on a slot whose counter is 0, then two inserts on the same slot.\<close>

definition trigger_events :: "(date \<times> tg_event) list" where
  "trigger_events =
     [(10, UPDATE appt_one (appt_one\<lparr>status := cancelled\<rparr>)),
      (10, INSERT appt_one), (10, INSERT appt_one)]"

definition doctor_one :: doctor where
  "doctor_one = \<lparr>d_id = 1, d_created_at = 100\<rparr>"

definition doctor_two :: doctor where
  "doctor_two = \<lparr>d_id = 2, d_created_at = 200\<rparr>"

definition slot_two :: time_slot where
  "slot_two = \<lparr>ts_id = 2, ts_doctor_id = 2, slot_date = 10, is_available = True,
               is_blocked = False, max_patients = 1, booked_count = 0\<rparr>"

text \<open>Two slots of doctor 1 for tomorrow, and one of today with room for two.\<close>

definition slot_three :: time_slot where
  "slot_three = \<lparr>ts_id = 3, ts_doctor_id = 1, slot_date = 11, is_available = True,
                 is_blocked = False, max_patients = 1, booked_count = 0\<rparr>"

definition slot_four :: time_slot where
  "slot_four = \<lparr>ts_id = 4, ts_doctor_id = 1, slot_date = 11, is_available = True,
                is_blocked = False, max_patients = 1, booked_count = 0\<rparr>"

definition slot_group :: time_slot where
  "slot_group = \<lparr>ts_id = 5, ts_doctor_id = 1, slot_date = 10, is_available = True,
                 is_blocked = False, max_patients = 2, booked_count = 0\<rparr>"

definition clinic :: db where
  "clinic = \<lparr>patients = [1, 2], doctors = [doctor_one, doctor_two],
             time_slots = [slot_one, slot_two, slot_three, slot_four, slot_group],
             appointments = [], queue_status = []\<rparr>"

text \<open>The database that a successful call leaves (the database itself when the
  call fails).\<close>

definition db_after :: "db \<Rightarrow> pg_error + 'a \<times> db \<Rightarrow> db" where
  "db_after d r = (case r of Inl e \<Rightarrow> d | Inr (x, d') \<Rightarrow> d')"

definition db_after_update :: "db \<Rightarrow> pg_error + db \<Rightarrow> db" where
  "db_after_update d r = (case r of Inl e \<Rightarrow> d | Inr d' \<Rightarrow> d')"

text \<open>Patient 1 has booked slot 3 (tomorrow) with doctor 1.\<close>

definition clinic_advance_booked :: db where
  "clinic_advance_booked = db_after clinic (book_appointment 10 clinic 1 1 3)"


text \<open>Doctor 1's queue of today: two patients have arrived, nobody is being served.\<close>

definition arrived_one :: appointment where
  "arrived_one = \<lparr>a_id = 1, patient_id = 1, doctor_id = 1, time_slot_id = 1,
                  queue_number = ''A001'', queue_sequence = 1, queue_date = 10,
                  status = arrived, created_at = 10\<rparr>"

definition arrived_two :: appointment where
  "arrived_two = \<lparr>a_id = 2, patient_id = 2, doctor_id = 1, time_slot_id = 5,
                  queue_number = ''A002'', queue_sequence = 2, queue_date = 10,
                  status = arrived, created_at = 10\<rparr>"

definition queue_row :: queue_status_row where
  "queue_row = \<lparr>qs_doctor_id = 1, current_queue_number = None,
                current_queue_sequence = Some 0, current_patient_id = None,
                current_appointment_id = None\<rparr>"

definition clinic_waiting :: db where
  "clinic_waiting =
     \<lparr>patients = [1, 2], doctors = [doctor_one, doctor_two],
      time_slots = [slot_one\<lparr>is_available := False, booked_count := 1\<rparr>,
                    slot_group\<lparr>is_available := False, booked_count := 1\<rparr>],
      appointments = [arrived_one, arrived_two], queue_status = [queue_row]\<rparr>"

text \<open>What a call returns, without the database: the appointment's queue number,
  queue sequence and queue day, or the error.\<close>

definition ticket :: "pg_error + appointment \<times> db \<Rightarrow> pg_error + string \<times> int \<times> date" where
  "ticket r = map_sum id (\<lambda>(a, d). (queue_number a, queue_sequence a, queue_date a)) r"

text \<open>The states of the scenarios below: the first patient of the queue has been
  started; slot 1 has been locked by \<open>lock_time_slot\<close>; patient 1 has booked slot 1;
  patient 2 has booked slot 1 after patient 1's no-show.\<close>

definition clinic_first_started :: db where
  "clinic_first_started =
     db_after clinic_waiting (start_consultation 10 clinic_waiting 1 arrived_one)"

definition clinic_slot_locked :: db where
  "clinic_slot_locked = db_after clinic (lock_time_slot 10 clinic 1)"

definition clinic_booked :: db where
  "clinic_booked = db_after clinic (book_appointment 10 clinic 1 1 1)"


text \<open>Patient 1 has booked the slot with room for two.\<close>

definition clinic_group_booked :: db where
  "clinic_group_booked = db_after clinic (book_appointment 10 clinic 1 1 5)"

text \<open>The rows that the query of \<open>next_in_queue\<close> keeps: the doctor's appointments
  of today in status \<open>arrived\<close>.\<close>

definition waiting :: "date \<Rightarrow> uuid \<Rightarrow> appointment \<Rightarrow> bool" where
  "waiting today p a = (doctor_id a = p \<and> queue_date a = today \<and> status a = arrived)"

text \<open>The shape of the results of a run of calls against one slot: failures, then
  at most one success, then only \<open>Slot is not available\<close>.\<close>

fun one_winner :: "(pg_error + appointment) list \<Rightarrow> bool" where
  "one_winner [] = True"
| "one_winner (Inl e # rs) = one_winner rs"
| "one_winner (Inr a # rs) = list_all (\<lambda>r. r = Inl slot_not_available) rs"


text \<open>The database with the doctor of every slot replaced (by \<open>h\<close> of it).\<close>

definition reassign :: "(uuid \<Rightarrow> uuid) \<Rightarrow> db \<Rightarrow> db" where
  "reassign h d = d\<lparr>time_slots := map (\<lambda>s. s\<lparr>ts_doctor_id := h (ts_doctor_id s)\<rparr>) (time_slots d)\<rparr>"

text \<open>Slot 1 after a reservation was deleted and the slot flagged available again by
  hand, as the repository's booking test cleans up: the counter still says 1.
  And the clinic after patient 1's reservation of slot 1 was cancelled.\<close>

definition clinic_reopened :: db where
  "clinic_reopened =
     clinic_booked\<lparr>time_slots :=
                     map (\<lambda>s. if ts_id s = 1 then s\<lparr>is_available := True\<rparr> else s)
                       (time_slots clinic_booked),
                   appointments := []\<rparr>"

definition clinic_cancelled :: db where
  "clinic_cancelled =
     db_after_update clinic_booked (update_appointment_status 10 clinic_booked 1 cancelled)"

text \<open>Doctor 1's queue of day 10 when the one patient waiting booked the day
  before: patient 1 reserved slot 1 (of day 10) on day 9 and was marked arrived
  on day 10.\<close>

definition clinic_booked_before :: db where
  "clinic_booked_before =
     (let d0 = clinic\<lparr>queue_status := [queue_row]\<rparr>;
          d1 = db_after d0 (book_appointment 9 d0 1 1 1)
      in db_after_update d1 (update_appointment_status 10 d1 1 arrived))"

section \<open>Facts about the slot update and the trigger\<close>

lemma map_filter_Nil_iff: "List.map_filter f xs = [] \<longleftrightarrow> (\<forall>x\<in>set xs. f x = None)"
  by (induction xs) (auto simp: List.map_filter_simps split: option.splits)

lemma update_time_slots_Inr:
  "update_time_slots today p f slots = Inr slots' \<longleftrightarrow>
     (slots' = map (\<lambda>s. if ts_id s = p then f s else s) slots
      \<and> (\<forall>s\<in>set slots. ts_id s = p \<longrightarrow> time_slots_check today (f s) = None))"
proof (cases "List.map_filter (\<lambda>s. time_slots_check today (f s)) (filter (\<lambda>s. ts_id s = p) slots)")
  case Nil
  then have "\<forall>s\<in>set slots. ts_id s = p \<longrightarrow> time_slots_check today (f s) = None"
    by (simp add: map_filter_Nil_iff)
  with Nil show ?thesis
    by (auto simp: update_time_slots_def)
next
  case (Cons e es)
  then have "\<not> (\<forall>s\<in>set slots. ts_id s = p \<longrightarrow> time_slots_check today (f s) = None)"
    using map_filter_Nil_iff [of "\<lambda>s. time_slots_check today (f s)" "filter (\<lambda>s. ts_id s = p) slots"]
    by auto
  with Cons show ?thesis
    by (simp add: update_time_slots_def)
qed

lemma time_slots_check_None:
  "time_slots_check today s = None \<longleftrightarrow> today \<le> slot_date s \<and> booked_count s \<le> max_patients s"
  by (auto simp: time_slots_check_def)

lemma mark_booked_simps [simp]:
  "ts_id (mark_booked s) = ts_id s" "is_available (mark_booked s) = False"
  "booked_count (mark_booked s) = booked_count s + 1" "max_patients (mark_booked s) = max_patients s"
  "slot_date (mark_booked s) = slot_date s" "is_blocked (mark_booked s) = is_blocked s"
  "ts_doctor_id (mark_booked s) = ts_doctor_id s"
  by (simp_all add: mark_booked_def)

lemma mark_freed_simps [simp]:
  "ts_id (mark_freed s) = ts_id s" "is_available (mark_freed s) = True"
  "booked_count (mark_freed s) = max (booked_count s - 1) 0" "max_patients (mark_freed s) = max_patients s"
  "slot_date (mark_freed s) = slot_date s" "is_blocked (mark_freed s) = is_blocked s"
  "ts_doctor_id (mark_freed s) = ts_doctor_id s"
  by (simp_all add: mark_freed_def)

lemma update_time_slots_within:
  assumes upd: "update_time_slots today p f slots = Inr slots'"
    and f: "\<And>s. within_capacity s \<Longrightarrow> booked_count (f s) \<le> max_patients (f s) \<Longrightarrow> within_capacity (f s)"
    and inv: "\<forall>s\<in>set slots. within_capacity s"
  shows "\<forall>s\<in>set slots'. within_capacity s"
proof
  fix s' assume "s' \<in> set slots'"
  with upd obtain s where s: "s \<in> set slots" "s' = (if ts_id s = p then f s else s)"
    by (auto simp: update_time_slots_Inr)
  show "within_capacity s'"
  proof (cases "ts_id s = p")
    case True
    with upd s have "time_slots_check today (f s) = None"
      by (simp add: update_time_slots_Inr)
    then have "booked_count (f s) \<le> max_patients (f s)"
      by (simp add: time_slots_check_None)
    with f inv s True show ?thesis by simp
  next
    case False
    with inv s show ?thesis by simp
  qed
qed

lemma update_slot_availability_bounds:
  assumes "update_slot_availability today ev slots = Inr slots'"
    and "\<forall>s\<in>set slots. within_capacity s"
  shows "\<forall>s\<in>set slots'. within_capacity s"
proof (cases ev)
  case (INSERT NEW)
  with assms(1) have "update_time_slots today (time_slot_id NEW) mark_booked slots = Inr slots'"
    by simp
  then show ?thesis
    by (rule update_time_slots_within) (use assms(2) in \<open>simp_all add: within_capacity_def\<close>)
next
  case (UPDATE OLD NEW)
  show ?thesis
  proof (cases "(status OLD \<noteq> cancelled \<and> status OLD \<noteq> no_show) \<and> (status NEW = cancelled \<or> status NEW = no_show)")
    case True
    with UPDATE assms(1) have "update_time_slots today (time_slot_id NEW) mark_freed slots = Inr slots'"
      by simp
    then show ?thesis
      by (rule update_time_slots_within) (use assms(2) in \<open>simp_all add: within_capacity_def\<close>)
  next
    case False
    with UPDATE assms show ?thesis by auto
  qed
qed

lemma run_trigger_bounds:
  "\<forall>s\<in>set slots. within_capacity s
   \<Longrightarrow> \<forall>s\<in>set (run_trigger evs slots). within_capacity s"
proof (induction evs arbitrary: slots)
  case Nil
  then show ?case by simp
next
  case (Cons tev evs)
  obtain today ev where tev: "tev = (today, ev)" by (cases tev)
  show ?case
  proof (cases "update_slot_availability today ev slots")
    case (Inl e)
    with Cons tev show ?thesis by simp
  next
    case (Inr slots')
    from update_slot_availability_bounds [OF Inr Cons.prems]
    have "\<forall>s\<in>set (run_trigger evs slots'). within_capacity s"
      by (rule Cons.IH)
    with Inr tev show ?thesis by simp
  qed
qed


section \<open>Facts about \<^verbatim>\<open>generate_queue_number\<close> and the concrete databases\<close>

lemma char_of_65: "char_of (65::nat) = CHR ''A''"
  by code_simp

lemma sort_key_Nil_iff: "sort_key f xs = [] \<longleftrightarrow> xs = []"
  by (metis length_sort list.size(3) length_0_conv)

text \<open>The row number is taken among the rows that passed \<^verbatim>\<open>WHERE id = p_doctor_id\<close>,
  so it is 1 whenever there is a row.\<close>

lemma doctor_prefix_A:
  "doctor_prefix ds p = (if list_ex (\<lambda>d. d_id d = p) ds then Some (CHR ''A'') else None)"
proof (cases "sort_key d_created_at (filter (\<lambda>d. d_id d = p) ds)")
  case Nil
  then have "filter (\<lambda>d. d_id d = p) ds = []"
    by (simp add: sort_key_Nil_iff)
  then have "\<not> list_ex (\<lambda>d. d_id d = p) ds"
    by (simp add: list_ex_iff filter_empty_conv)
  with Nil show ?thesis
    by (simp add: doctor_prefix_def)
next
  case (Cons d rest)
  then have "filter (\<lambda>d. d_id d = p) ds \<noteq> []"
    using sort_key_Nil_iff [of d_created_at "filter (\<lambda>d. d_id d = p) ds"] by auto
  then have "list_ex (\<lambda>d. d_id d = p) ds"
    by (simp add: list_ex_iff filter_empty_conv)
  with Cons show ?thesis
    by (simp add: doctor_prefix_def char_of_65)
qed

lemma lock_slot_one: "lock_time_slot 10 clinic 1 = Inr (Some slot_one, clinic_slot_locked)"
  by code_simp


lemma find_appt_one:
  "List.find (\<lambda>a. a_id a = 1) (appointments clinic_booked) = Some appt_one"
  by code_simp




section \<open>Facts about \<^verbatim>\<open>book_appointment\<close>\<close>

lemma find_update_same_id:
  assumes "\<And>s. ts_id (f s) = ts_id s"
  shows "List.find (\<lambda>s. ts_id s = q) (map (\<lambda>s. if ts_id s = p then f s else s) slots)
         = map_option (\<lambda>s. if ts_id s = p then f s else s) (List.find (\<lambda>s. ts_id s = q) slots)"
  using assms by (induction slots) auto

lemma map_filter_Cons_in:
  "List.map_filter g xs = e # es \<Longrightarrow> \<exists>x\<in>set xs. g x = Some e"
  by (induction xs) (auto simp: List.map_filter_simps split: option.splits)

lemma time_slots_check_Some: "time_slots_check today s = Some e \<Longrightarrow> \<exists>c. e = CheckViolation c"
  by (auto simp: time_slots_check_def split: if_splits)

lemma update_time_slots_Inl:
  assumes "update_time_slots today p f slots = Inl e"
  shows "\<exists>c. e = CheckViolation c"
proof -
  from assms obtain es where
    "List.map_filter (\<lambda>s. time_slots_check today (f s)) (filter (\<lambda>s. ts_id s = p) slots) = e # es"
    by (auto simp: update_time_slots_def split: list.splits)
  then obtain s where "time_slots_check today (f s) = Some e"
    by (blast dest: map_filter_Cons_in)
  then show ?thesis by (rule time_slots_check_Some)
qed

lemma insert_appointment_Inr:
  assumes "insert_appointment today d pat doc slot qn qs qdate st = Inr (a, d')"
  shows "\<exists>q n. qs = Some n \<and> 0 < n
           \<and> (case qn of None \<Rightarrow> generate_queue_number d doc qdate | Some q \<Rightarrow> Some q) = Some q
           \<and> a = \<lparr>a_id = fresh_uuid (appointments d), patient_id = pat, doctor_id = doc,
                  time_slot_id = slot, queue_number = q, queue_sequence = n, queue_date = qdate,
                  status = st, created_at = today\<rparr>
           \<and> \<not> list_ex (\<lambda>b. patient_id b = pat \<and> time_slot_id b = slot) (appointments d)
           \<and> \<not> list_ex (\<lambda>b. doctor_id b = doc \<and> queue_date b = qdate \<and> queue_number b = q) (appointments d)
           \<and> pat \<in> set (patients d) \<and> doc \<in> set (map d_id (doctors d))
           \<and> update_time_slots today slot mark_booked (time_slots d) = Inr (time_slots d')
           \<and> d' = d\<lparr>time_slots := time_slots d', appointments := appointments d @ [a]\<rparr>"
  using assms
  by (auto simp: insert_appointment_def Let_def split: option.splits if_splits sum.splits)

lemma insert_appointment_Inl:
  assumes "insert_appointment today d pat doc slot qn qs qdate st = Inl e"
  shows "e \<noteq> slot_not_available"
  using assms
  by (auto simp: insert_appointment_def Let_def slot_not_available_def
      split: option.splits if_splits sum.splits dest: update_time_slots_Inl)


lemma find_Some_in: "List.find P xs = Some x \<Longrightarrow> x \<in> set xs \<and> P x"
  by (auto simp: find_Some_iff)

text \<open>Whether the slot passes the test of \<open>book_appointment\<close>.\<close>

lemma book_appointment_closed:
  "(book_appointment today d pat doc p = Inl slot_not_available) \<longleftrightarrow>
     (case List.find (\<lambda>s. ts_id s = p) (time_slots d) of
        None \<Rightarrow> True
      | Some s \<Rightarrow> \<not> is_available s \<or> is_blocked s)"
proof (cases "List.find (\<lambda>s. ts_id s = p) (time_slots d)")
  case None
  then show ?thesis by (simp add: book_appointment_def)
next
  case (Some s)
  show ?thesis
  proof (cases "\<not> is_available s \<or> is_blocked s")
    case True
    with Some show ?thesis by (simp add: book_appointment_def)
  next
    case False
    with Some have "book_appointment today d pat doc p \<noteq> Inl slot_not_available"
      using insert_appointment_Inl by (fastforce simp: book_appointment_def Let_def)
    with Some False show ?thesis by simp
  qed
qed

lemma book_appointment_Inr:
  assumes "book_appointment today d pat doc p = Inr (a, d')"
  shows "\<exists>s. List.find (\<lambda>s. ts_id s = p) (time_slots d) = Some s \<and> is_available s \<and> \<not> is_blocked s
           \<and> queue_date a = slot_date s"
    and "update_time_slots today p mark_booked (time_slots d) = Inr (time_slots d')"
    and "appointments d' = appointments d @ [a]"
    and "a_id a = fresh_uuid (appointments d)" and "time_slot_id a = p" and "status a = confirmed"
    and "patient_id a = pat" and "doctor_id a = doc" and "created_at a = today"
    and "patients d' = patients d" and "doctors d' = doctors d" and "queue_status d' = queue_status d"
proof -
  from assms obtain s where s: "List.find (\<lambda>s. ts_id s = p) (time_slots d) = Some s"
    "is_available s" "\<not> is_blocked s"
    and ins: "insert_appointment today d pat doc p (generate_queue_number d doc (slot_date s))
               (Option.bind (generate_queue_number d doc (slot_date s)) queue_sequence_of)
               (slot_date s) confirmed = Inr (a, d')"
    by (auto simp: book_appointment_def Let_def split: option.splits if_splits)
  note r = insert_appointment_Inr [OF ins]
  from r s show "\<exists>s. List.find (\<lambda>s. ts_id s = p) (time_slots d) = Some s \<and> is_available s \<and> \<not> is_blocked s
           \<and> queue_date a = slot_date s" by auto
  from r show "update_time_slots today p mark_booked (time_slots d) = Inr (time_slots d')" by auto
  from r have d': "d' = d\<lparr>time_slots := time_slots d', appointments := appointments d @ [a]\<rparr>" by auto
  show "appointments d' = appointments d @ [a]" by (subst d') simp
  show "patients d' = patients d" by (subst d') simp
  show "doctors d' = doctors d" by (subst d') simp
  show "queue_status d' = queue_status d" by (subst d') simp
  from r show "a_id a = fresh_uuid (appointments d)" by auto
  from r show "time_slot_id a = p" by auto
  from r show "status a = confirmed" by auto
  from r show "patient_id a = pat" by auto
  from r show "doctor_id a = doc" by auto
  from r show "created_at a = today" by auto
qed

lemma book_appointment_slots:
  assumes "book_appointment today d pat doc p = Inr (a, d')"
  shows "time_slots d' = map (\<lambda>s. if ts_id s = p then mark_booked s else s) (time_slots d)"
    and "\<forall>s\<in>set (time_slots d). ts_id s = p \<longrightarrow> today \<le> slot_date s \<and> booked_count s + 1 \<le> max_patients s"
  using book_appointment_Inr(2) [OF assms]
  by (simp_all add: update_time_slots_Inr time_slots_check_None)

lemma book_appointment_closes_slot:
  assumes "book_appointment today d pat doc p = Inr (a, d')"
  shows "book_appointment today' d' pat' doc' p = Inl slot_not_available"
proof -
  from book_appointment_Inr(1) [OF assms] obtain s where
    s: "List.find (\<lambda>s. ts_id s = p) (time_slots d) = Some s" by blast
  then have "ts_id s = p" by (blast dest: find_Some_in)
  with s have "List.find (\<lambda>s. ts_id s = p) (time_slots d') = Some (mark_booked s)"
    by (simp add: book_appointment_slots(1) [OF assms] find_update_same_id)
  then show ?thesis
    by (simp add: book_appointment_closed)
qed

lemma book_appointment_full_or_past:
  assumes s: "List.find (\<lambda>s. ts_id s = p) (time_slots d) = Some s"
    and bad: "slot_date s < today \<or> max_patients s \<le> booked_count s"
  shows "\<exists>e. book_appointment today d pat doc p = Inl e"
proof (cases "book_appointment today d pat doc p")
  case (Inl e)
  then show ?thesis by blast
next
  case (Inr r)
  obtain a d' where "r = (a, d')" by (cases r)
  with Inr have ok: "book_appointment today d pat doc p = Inr (a, d')" by simp
  from s have "s \<in> set (time_slots d)" "ts_id s = p"
    by (blast dest: find_Some_in)+
  with book_appointment_slots(2) [OF ok] have "today \<le> slot_date s \<and> booked_count s + 1 \<le> max_patients s"
    by blast
  with bad show ?thesis by auto
qed


lemma book_group_slot:
  "book_appointment 10 clinic 1 1 5 = Inr (appt_one\<lparr>time_slot_id := 5\<rparr>, clinic_group_booked)"
  by code_simp

text \<open>The SQL function, in contrast to the handler, runs in one transaction: a call
  that fails returns the error alone, and a call that succeeds has written the
  appointment and the slot together.\<close>

lemma book_appointment_all_or_nothing:
  "(\<exists>e. book_appointment today d pat doc p = Inl e)
   \<or> (\<exists>a d'. book_appointment today d pat doc p = Inr (a, d')
         \<and> appointments d' = appointments d @ [a]
         \<and> time_slots d' = map (\<lambda>s. if ts_id s = p then mark_booked s else s) (time_slots d))"
proof (cases "book_appointment today d pat doc p")
  case (Inl e)
  then show ?thesis by blast
next
  case (Inr r)
  obtain a d' where "r = (a, d')" by (cases r)
  with Inr have ok: "book_appointment today d pat doc p = Inr (a, d')" by simp
  from ok book_appointment_Inr(3) [OF ok] book_appointment_slots(1) [OF ok] show ?thesis
    by blast
qed

section \<open>Facts about \<^verbatim>\<open>advance_queue\<close>\<close>

lemma sort_key_head_least:
  assumes "sort_key f xs = y # ys"
  shows "y \<in> set xs \<and> (\<forall>x\<in>set xs. f y \<le> f x)"
proof -
  have "set (y # ys) = set xs"
    using assms set_sort [of f xs] by simp
  moreover have "sorted (map f (y # ys))"
    using assms sorted_sort_key [of f xs] by simp
  ultimately show ?thesis
    by auto
qed

lemma next_in_queue_None:
  "next_in_queue today d p = None \<longleftrightarrow> \<not> list_ex (waiting today p) (appointments d)"
proof (cases "sort_key queue_sequence (filter (waiting today p) (appointments d))")
  case Nil
  then have "filter (waiting today p) (appointments d) = []"
    by (simp add: sort_key_Nil_iff)
  with Nil show ?thesis
    by (simp add: next_in_queue_def waiting_def [abs_def] list_ex_iff filter_empty_conv)
next
  case (Cons v vs)
  then have "filter (waiting today p) (appointments d) \<noteq> []"
    using sort_key_Nil_iff [of queue_sequence "filter (waiting today p) (appointments d)"] by auto
  with Cons show ?thesis
    by (simp add: next_in_queue_def waiting_def [abs_def] list_ex_iff filter_empty_conv)
qed

lemma next_in_queue_Some:
  assumes "next_in_queue today d p = Some v"
  shows "v \<in> set (appointments d) \<and> waiting today p v
         \<and> (\<forall>b\<in>set (appointments d). waiting today p b \<longrightarrow> queue_sequence v \<le> queue_sequence b)"
proof -
  from assms obtain vs where
    "sort_key queue_sequence (filter (waiting today p) (appointments d)) = v # vs"
    by (auto simp: next_in_queue_def waiting_def [abs_def] split: list.splits)
  from sort_key_head_least [OF this] show ?thesis
    by auto
qed

lemma find_None_map_id:
  assumes "List.find (\<lambda>a. a_id a = x) apps = None"
  shows "map (\<lambda>a. if a_id a = x then f a else a) apps = apps"
proof -
  from assms have "\<forall>a\<in>set apps. a_id a \<noteq> x"
    by (simp add: find_None_iff)
  then show ?thesis
    by (induction apps) auto
qed

lemma start_status_update:
  "update_appointment_status today d x in_consultation
     = Inr (d\<lparr>appointments :=
               map (\<lambda>a. if a_id a = x then a\<lparr>status := in_consultation\<rparr> else a) (appointments d)\<rparr>)"
proof (cases "List.find (\<lambda>a. a_id a = x) (appointments d)")
  case None
  then show ?thesis
    by (simp add: update_appointment_status_def find_None_map_id)
next
  case (Some OLD)
  then show ?thesis
    by (simp add: update_appointment_status_def)
qed

lemma advance_queue_None:
  assumes "next_in_queue today d p = None"
  shows "advance_queue today d p = Inr (None, d)"
  using assms by (simp add: advance_queue_def)

lemma advance_queue_Some:
  assumes "next_in_queue today d p = Some v"
  shows "\<exists>r d'. advance_queue today d p = Inr (r, d')
           \<and> appointments d' =
               map (\<lambda>a. if a_id a = a_id v then a\<lparr>status := in_consultation\<rparr> else a) (appointments d)
           \<and> time_slots d' = time_slots d
           \<and> queue_status d' =
               map (\<lambda>q. if qs_doctor_id q = p then set_now_serving v q else q) (queue_status d)
           \<and> r = List.find (\<lambda>q. qs_doctor_id q = p) (queue_status d')"
  using assms
  by (simp add: advance_queue_def start_consultation_def start_status_update Let_def)

section \<open>Facts about status updates that release a slot\<close>

lemma update_time_slots_ok:
  assumes "\<forall>s\<in>set slots. ts_id s = p \<longrightarrow> time_slots_check today (f s) = None"
  shows "update_time_slots today p f slots = Inr (map (\<lambda>s. if ts_id s = p then f s else s) slots)"
  using assms by (simp add: update_time_slots_Inr)

lemma mark_freed_check:
  assumes "today \<le> slot_date s" and "within_capacity s"
  shows "time_slots_check today (mark_freed s) = None"
  using assms by (simp add: time_slots_check_None within_capacity_def)

lemma release_status_update:
  assumes "List.find (\<lambda>b. a_id b = x) (appointments d) = Some a"
    and "active a" and "st = cancelled \<or> st = no_show"
  shows "update_appointment_status today d x st =
           (case update_time_slots today (time_slot_id a) mark_freed (time_slots d) of
              Inl e \<Rightarrow> Inl e
            | Inr slots' \<Rightarrow>
                Inr (d\<lparr>time_slots := slots',
                       appointments := map (\<lambda>b. if a_id b = x then b\<lparr>status := st\<rparr> else b)
                                         (appointments d)\<rparr>))"
  using assms by (auto simp: update_appointment_status_def active_def)

lemma map_status_update_frame:
  "map queue_sequence (map (\<lambda>b. if a_id b = x then b\<lparr>status := st\<rparr> else b) apps) = map queue_sequence apps"
  "map queue_number (map (\<lambda>b. if a_id b = x then b\<lparr>status := st\<rparr> else b) apps) = map queue_number apps"
  "map a_id (map (\<lambda>b. if a_id b = x then b\<lparr>status := st\<rparr> else b) apps) = map a_id apps"
  "map time_slot_id (map (\<lambda>b. if a_id b = x then b\<lparr>status := st\<rparr> else b) apps) = map time_slot_id apps"
  by (induction apps) auto

lemma book_appointment_new_label:
  assumes "book_appointment today d pat doc p = Inr (b, d')"
  shows "\<not> list_ex (\<lambda>c. doctor_id c = doctor_id b \<and> queue_date c = queue_date b
                          \<and> queue_number c = queue_number b) (appointments d)"
proof -
  from assms obtain s where s: "List.find (\<lambda>s. ts_id s = p) (time_slots d) = Some s"
    and ins: "insert_appointment today d pat doc p (generate_queue_number d doc (slot_date s))
               (Option.bind (generate_queue_number d doc (slot_date s)) queue_sequence_of)
               (slot_date s) confirmed = Inr (b, d')"
    by (auto simp: book_appointment_def Let_def split: option.splits if_splits)
  from insert_appointment_Inr [OF ins] show ?thesis
    by auto
qed

section \<open>Facts about runs of reservations and the slot invariant\<close>

lemma succeeded_simps [simp]: "succeeded (Inl e) = False" "succeeded (Inr x) = True"
  by (simp_all add: succeeded_def)

lemma reserve_calls_closed:
  assumes "book_appointment today d pat0 doc0 p = Inl slot_not_available"
  shows "reserve_calls today d p calls = (map (\<lambda>c. Inl slot_not_available) calls, d)"
proof -
  from assms have closed: "\<And>pat doc. book_appointment today d pat doc p = Inl slot_not_available"
    by (simp add: book_appointment_closed)
  show ?thesis
  proof (induction calls)
    case Nil
    then show ?case by simp
  next
    case (Cons c calls)
    obtain pat doc where "c = (pat, doc)" by (cases c)
    with Cons closed [of pat doc] show ?case by simp
  qed
qed

lemma one_winner_reserve_calls: "one_winner (fst (reserve_calls today d p calls))"
proof (induction calls arbitrary: d)
  case Nil
  then show ?case by simp
next
  case (Cons c calls)
  obtain pat doc where c: "c = (pat, doc)" by (cases c)
  show ?case
  proof (cases "book_appointment today d pat doc p")
    case (Inl e)
    obtain rs d' where rest: "reserve_calls today d p calls = (rs, d')"
      by (cases "reserve_calls today d p calls")
    with Cons [of d] have "one_winner rs" by simp
    with c Inl rest show ?thesis by simp
  next
    case (Inr r)
    obtain a d1 where r: "r = (a, d1)" by (cases r)
    with Inr have ok: "book_appointment today d pat doc p = Inr (a, d1)" by simp
    then have "book_appointment today d1 pat doc p = Inl slot_not_available"
      by (rule book_appointment_closes_slot)
    then have "reserve_calls today d1 p calls = (map (\<lambda>c. Inl slot_not_available) calls, d1)"
      by (rule reserve_calls_closed)
    with c ok show ?thesis
      by (simp add: list_all_iff)
  qed
qed

lemma one_winner_count: "one_winner rs \<Longrightarrow> length (filter succeeded rs) \<le> 1"
proof (induction rs rule: one_winner.induct)
  case 1
  then show ?case by simp
next
  case (2 e rs)
  then show ?case by simp
next
  case (3 a rs)
  then have "filter succeeded rs = []"
    by (auto simp: filter_empty_conv list_all_iff)
  then show ?case by simp
qed

lemma one_winner_split:
  "one_winner rs \<Longrightarrow> rs = rs1 @ Inr a # rs2
   \<Longrightarrow> list_all (\<lambda>r. \<not> succeeded r) rs1 \<and> list_all (\<lambda>r. r = Inl slot_not_available) rs2"
proof (induction rs arbitrary: rs1 rule: one_winner.induct)
  case 1
  then show ?case by simp
next
  case (2 e rs)
  from "2.prems"(2) obtain rs1' where rs1: "rs1 = Inl e # rs1'" "rs = rs1' @ Inr a # rs2"
    by (cases rs1) auto
  with "2.prems"(1) "2.IH" [of rs1'] show ?case
    by simp
next
  case (3 b rs)
  show ?case
  proof (cases rs1)
    case Nil
    with "3.prems" show ?thesis by simp
  next
    case (Cons r rs1')
    with "3.prems"(2) have "Inr a \<in> set rs" by auto
    with "3.prems"(1) show ?thesis
      by (auto simp: list_all_iff slot_not_available_def)
  qed
qed
















lemma lock_time_slot_Inr:
  assumes "lock_time_slot today d p = Inr (r, d')"
  shows "(r = None \<and> d' = d)
         \<or> (r \<noteq> None \<and> appointments d' = appointments d
              \<and> time_slots d' =
                   map (\<lambda>s. if ts_id s = p then s\<lparr>is_available := False\<rparr> else s) (time_slots d))"
proof (cases "List.find (\<lambda>s. ts_id s = p \<and> is_available s) (time_slots d)")
  case None
  with assms show ?thesis
    by (simp add: lock_time_slot_def)
next
  case (Some slot)
  with assms obtain slots' where
    u: "update_time_slots today p (\<lambda>s. s\<lparr>is_available := False\<rparr>) (time_slots d) = Inr slots'"
    and d': "d' = d\<lparr>time_slots := slots'\<rparr>" and r: "r = Some slot"
    by (auto simp: lock_time_slot_def split: sum.splits)
  from u have "slots' = map (\<lambda>s. if ts_id s = p then s\<lparr>is_available := False\<rparr> else s) (time_slots d)"
    by (simp add: update_time_slots_Inr)
  with d' r show ?thesis
    by simp
qed








section \<open>Facts about concurrent calls against one slot\<close>










lemma not_won_run_call:
  assumes r: "run_call today d p c = Inr (x, d')" and w: "\<not> won (Inr x)"
  shows "d' = d"
proof (cases c)
  case (Book pat doc)
  with r w show ?thesis
    by (cases "book_appointment today d pat doc p") (auto simp: run_call_def)
next
  case LockSlot
  with r obtain res where l: "lock_time_slot today d p = Inr (res, d')" and x: "x = Locked res"
    by (cases "lock_time_slot today d p") (auto simp: run_call_def)
  with w have "res = None"
    by (cases res) auto
  with lock_time_slot_Inr [OF l] show ?thesis
    by simp
qed






lemma run_Cons [simp]:
  "run today p calls (ev # evs) s = run today p calls evs (step today p calls ev s)"
  by (simp add: run_def)

lemma run_Nil [simp]: "run today p calls [] s = s"
  by (simp add: run_def)





















section \<open>The slot's doctor is never read\<close>

lemma map_filter_map: "List.map_filter f (map g xs) = List.map_filter (f \<circ> g) xs"
  by (induction xs) (auto simp: List.map_filter_simps split: option.splits)

lemma find_map_row: "List.find P (map g xs) = map_option g (List.find (\<lambda>x. P (g x)) xs)"
  by (induction xs) auto

lemma update_time_slots_reassign:
  "update_time_slots today p mark_booked (map (\<lambda>s. s\<lparr>ts_doctor_id := h (ts_doctor_id s)\<rparr>) slots)
     = map_sum id (map (\<lambda>s. s\<lparr>ts_doctor_id := h (ts_doctor_id s)\<rparr>))
         (update_time_slots today p mark_booked slots)"
proof -
  let ?g = "\<lambda>s. s\<lparr>ts_doctor_id := h (ts_doctor_id s)\<rparr>"
  have chk: "\<And>s. time_slots_check today (mark_booked (?g s)) = time_slots_check today (mark_booked s)"
    by (simp add: time_slots_check_def)
  have "filter (\<lambda>s. ts_id s = p) (map ?g slots) = map ?g (filter (\<lambda>s. ts_id s = p) slots)"
    by (induction slots) auto
  then have errs: "List.map_filter (\<lambda>s. time_slots_check today (mark_booked s))
            (filter (\<lambda>s. ts_id s = p) (map ?g slots))
        = List.map_filter (\<lambda>s. time_slots_check today (mark_booked s))
            (filter (\<lambda>s. ts_id s = p) slots)"
    by (simp add: map_filter_map comp_def chk)
  have rows: "map (\<lambda>s. if ts_id s = p then mark_booked s else s) (map ?g slots)
        = map ?g (map (\<lambda>s. if ts_id s = p then mark_booked s else s) slots)"
    by (induction slots) (auto simp: mark_booked_def)
  show ?thesis
    unfolding update_time_slots_def errs rows
    by (simp split: list.splits)
qed

lemma generate_queue_number_reassign:
  "generate_queue_number (reassign h d) doc day = generate_queue_number d doc day"
  by (simp add: generate_queue_number_def reassign_def)

lemma insert_appointment_reassign:
  "insert_appointment today (reassign h d) pat doc slot qn qs qdate st
     = map_sum id (\<lambda>(a, d'). (a, reassign h d')) (insert_appointment today d pat doc slot qn qs qdate st)"
proof -
  have ids: "map ts_id (time_slots (reassign h d)) = map ts_id (time_slots d)"
    by (simp add: reassign_def comp_def)
  show ?thesis
    unfolding insert_appointment_def generate_queue_number_reassign ids
    by (simp add: reassign_def update_time_slots_reassign Let_def
        split: option.splits sum.splits)
qed

lemma book_appointment_reassign:
  "book_appointment today (reassign h d) pat doc p
     = map_sum id (\<lambda>(a, d'). (a, reassign h d')) (book_appointment today d pat doc p)"
proof (cases "List.find (\<lambda>s. ts_id s = p) (time_slots d)")
  case None
  then have "List.find (\<lambda>s. ts_id s = p) (time_slots (reassign h d)) = None"
    by (simp add: reassign_def find_None_iff)
  with None show ?thesis
    by (simp add: book_appointment_def)
next
  case (Some s)
  then have "List.find (\<lambda>s. ts_id s = p) (time_slots (reassign h d))
      = Some (s\<lparr>ts_doctor_id := h (ts_doctor_id s)\<rparr>)"
    by (simp add: reassign_def find_map_row)
  with Some show ?thesis
    by (simp add: book_appointment_def generate_queue_number_reassign insert_appointment_reassign
        Let_def)
qed

section \<open>Further facts about the sequence number and about serial advances\<close>

lemma next_sequence_ignores_queue_date:
  "next_sequence (map (\<lambda>a. a\<lparr>queue_date := f a\<rparr>) apps) p_doctor_id p_date
     = next_sequence apps p_doctor_id p_date"
proof -
  have "map queue_sequence
          (filter (\<lambda>a. doctor_id a = p_doctor_id \<and> created_at a = p_date)
             (map (\<lambda>a. a\<lparr>queue_date := f a\<rparr>) apps))
        = map queue_sequence
            (filter (\<lambda>a. doctor_id a = p_doctor_id \<and> created_at a = p_date) apps)"
    by (induction apps) auto
  then show ?thesis
    by (simp only: next_sequence_def)
qed

lemma serial_advance_selects_another:
  assumes v: "next_in_queue today d p = Some v"
    and adv: "advance_queue today d p = Inr (r, d')"
    and w: "next_in_queue today' d' p' = Some w"
  shows "a_id w \<noteq> a_id v"
proof
  assume same: "a_id w = a_id v"
  from advance_queue_Some [OF v] adv
  have apps: "appointments d' =
      map (\<lambda>a. if a_id a = a_id v then a\<lparr>status := in_consultation\<rparr> else a) (appointments d)"
    by auto
  from next_in_queue_Some [OF w] have "w \<in> set (appointments d')" "status w = arrived"
    by (auto simp: waiting_def)
  with apps same show False
    by auto
qed

lemma find_reopened:
  "List.find (\<lambda>s. ts_id s = 1) (time_slots clinic_reopened)
     = Some (slot_one\<lparr>booked_count := 1\<rparr>)"
  by code_simp

lemma cancel_appt_one:
  "update_appointment_status 10 clinic_booked 1 cancelled = Inr clinic_cancelled"
  by code_simp

section \<open>What \<^verbatim>\<open>advance_queue\<close>, a release and a reservation do\<close>

text \<open>
  Reservations of one slot run one after the other: at most one call succeeds;
  the calls before the successful one fail, and every call after it fails with
  \<open>Slot is not available\<close>.
\<close>

lemma serial_reserve_calls_one_winner:
  "length (filter succeeded (fst (reserve_calls today d p calls))) \<le> 1
   \<and> (\<forall>rs1 a rs2. fst (reserve_calls today d p calls) = rs1 @ Inr a # rs2 \<longrightarrow>
         list_all (\<lambda>r. \<not> succeeded r) rs1
         \<and> list_all (\<lambda>r. r = Inl slot_not_available) rs2)"
proof -
  have count: "length (filter succeeded (fst (reserve_calls today d p calls))) \<le> 1"
    using one_winner_reserve_calls by (rule one_winner_count)
  have order: "\<forall>rs1 a rs2. fst (reserve_calls today d p calls) = rs1 @ Inr a # rs2 \<longrightarrow>
               list_all (\<lambda>r. \<not> succeeded r) rs1
               \<and> list_all (\<lambda>r. r = Inl slot_not_available) rs2"
    using one_winner_split [OF one_winner_reserve_calls] by blast
  from count order show ?thesis
    by (intro conjI)
qed

text \<open>
  When the doctor has an appointment of today in status \<open>arrived\<close>,
  \<open>advance_queue\<close> selects an arrived appointment of today whose queue sequence is
  the lowest among them, sets the status of the appointment with that id to
  \<open>in_consultation\<close> (no other appointment changes) and points the doctor's queue
  row at it. When there is none, it returns \<^verbatim>\<open>NULL\<close> with a notice, which is not
  an error, and the database, with the queue row and every status, is unchanged.
\<close>

lemma advance_starts_lowest_arrived:
  "(list_ex (waiting today p) (appointments d) \<longrightarrow>
      (\<exists>v r d'. v \<in> set (appointments d) \<and> waiting today p v
          \<and> (\<forall>b\<in>set (appointments d). waiting today p b \<longrightarrow> queue_sequence v \<le> queue_sequence b)
          \<and> advance_queue today d p = Inr (r, d')
          \<and> appointments d' =
               map (\<lambda>a. if a_id a = a_id v then a\<lparr>status := in_consultation\<rparr> else a) (appointments d)
          \<and> queue_status d' =
               map (\<lambda>q. if qs_doctor_id q = p then set_now_serving v q else q) (queue_status d)
          \<and> r = List.find (\<lambda>q. qs_doctor_id q = p) (queue_status d')))
   \<and> (\<not> list_ex (waiting today p) (appointments d) \<longrightarrow> advance_queue today d p = Inr (None, d))"
proof (intro conjI impI)
  assume "list_ex (waiting today p) (appointments d)"
  then obtain v where v: "next_in_queue today d p = Some v"
    using next_in_queue_None [of today d p] by (cases "next_in_queue today d p") auto
  from next_in_queue_Some [OF v] advance_queue_Some [OF v]
  show "\<exists>v r d'. v \<in> set (appointments d) \<and> waiting today p v
          \<and> (\<forall>b\<in>set (appointments d). waiting today p b \<longrightarrow> queue_sequence v \<le> queue_sequence b)
          \<and> advance_queue today d p = Inr (r, d')
          \<and> appointments d' =
               map (\<lambda>a. if a_id a = a_id v then a\<lparr>status := in_consultation\<rparr> else a) (appointments d)
          \<and> queue_status d' =
               map (\<lambda>q. if qs_doctor_id q = p then set_now_serving v q else q) (queue_status d)
          \<and> r = List.find (\<lambda>q. qs_doctor_id q = p) (queue_status d')"
    by blast
next
  assume "\<not> list_ex (waiting today p) (appointments d)"
  then have "next_in_queue today d p = None"
    by (simp add: next_in_queue_None)
  then show "advance_queue today d p = Inr (None, d)"
    by (rule advance_queue_None)
qed

text \<open>The empty queue of the clinic, and the queue of two arrived patients.\<close>

lemma advance_starts_lowest_arrived_example:
  "advance_queue 10 clinic 1 = Inr (None, clinic)
   \<and> (\<exists>r d'. advance_queue 10 clinic_waiting 1 = Inr (r, d')
         \<and> map status (appointments d') = [in_consultation, arrived]
         \<and> map current_appointment_id (queue_status d') = [Some 1])"
proof -
  have none: "\<not> list_ex (waiting 10 1) (appointments clinic)"
    by (simp add: clinic_def)
  have some: "list_ex (waiting 10 1) (appointments clinic_waiting)"
    by (simp add: clinic_waiting_def waiting_def arrived_one_def)
  from advance_starts_lowest_arrived [of 10 1 clinic] none
  have first: "advance_queue 10 clinic 1 = Inr (None, clinic)"
    by blast
  from advance_starts_lowest_arrived [of 10 1 clinic_waiting] some
  obtain v r d' where v: "v \<in> set (appointments clinic_waiting)" "waiting 10 1 v"
    and least: "\<forall>b\<in>set (appointments clinic_waiting). waiting 10 1 b \<longrightarrow> queue_sequence v \<le> queue_sequence b"
    and adv: "advance_queue 10 clinic_waiting 1 = Inr (r, d')"
    and apps: "appointments d' =
               map (\<lambda>a. if a_id a = a_id v then a\<lparr>status := in_consultation\<rparr> else a)
                 (appointments clinic_waiting)"
    and rows: "queue_status d' =
               map (\<lambda>q. if qs_doctor_id q = 1 then set_now_serving v q else q)
                 (queue_status clinic_waiting)"
    by blast
  have "waiting 10 1 arrived_one"
    by (simp add: waiting_def arrived_one_def)
  with least have "queue_sequence v \<le> queue_sequence arrived_one"
    by (simp add: clinic_waiting_def)
  with v have "v = arrived_one"
    by (auto simp: clinic_waiting_def arrived_one_def arrived_two_def)
  with apps rows have "map status (appointments d') = [in_consultation, arrived]"
    and "map current_appointment_id (queue_status d') = [Some 1]"
    by (simp_all add: clinic_waiting_def arrived_one_def arrived_two_def queue_row_def
        set_now_serving_def)
  with adv have "\<exists>r d'. advance_queue 10 clinic_waiting 1 = Inr (r, d')
         \<and> map status (appointments d') = [in_consultation, arrived]
         \<and> map current_appointment_id (queue_status d') = [Some 1]"
    by (intro exI conjI)
  with first show ?thesis
    by (rule conjI)
qed

text \<open>
  A status update to \<open>cancelled\<close> or \<open>no_show\<close> of an appointment that holds its
  slot, when the slot is not dated before today and has its counter within
  \<open>0 \<le> booked_count \<le> max_patients\<close>: the update succeeds; the slot's
  \<open>booked_count\<close> becomes \<^verbatim>\<open>GREATEST(booked_count - 1, 0)\<close> and \<open>is_available\<close>
  becomes true; no other slot and no other appointment changes, and every
  appointment keeps its queue sequence and queue number. No later reservation
  gets, for the same doctor and queue day, the queue number of a stored
  appointment, released or not.
\<close>

lemma release_frees_slot_and_keeps_queue_numbers:
  assumes "List.find (\<lambda>b. a_id b = x) (appointments d) = Some a"
    and "active a"
    and "st = cancelled \<or> st = no_show"
    and "\<forall>s\<in>set (time_slots d). ts_id s = time_slot_id a \<longrightarrow> today \<le> slot_date s \<and> within_capacity s"
  shows "\<exists>d'. update_appointment_status today d x st = Inr d'
           \<and> appointments d' =
               map (\<lambda>b. if a_id b = x then b\<lparr>status := st\<rparr> else b) (appointments d)
           \<and> time_slots d' =
               map (\<lambda>s. if ts_id s = time_slot_id a
                         then s\<lparr>is_available := True, booked_count := max (booked_count s - 1) 0\<rparr>
                         else s) (time_slots d)
           \<and> map queue_sequence (appointments d') = map queue_sequence (appointments d)
           \<and> map queue_number (appointments d') = map queue_number (appointments d)
           \<and> (\<forall>day pat doc p b d2. book_appointment day d' pat doc p = Inr (b, d2) \<longrightarrow>
                  \<not> list_ex (\<lambda>c. doctor_id c = doctor_id b \<and> queue_date c = queue_date b
                                      \<and> queue_number c = queue_number b) (appointments d'))"
proof -
  from assms(4) have "\<forall>s\<in>set (time_slots d). ts_id s = time_slot_id a
      \<longrightarrow> time_slots_check today (mark_freed s) = None"
    by (simp add: mark_freed_check)
  then have upd: "update_time_slots today (time_slot_id a) mark_freed (time_slots d)
      = Inr (map (\<lambda>s. if ts_id s = time_slot_id a then mark_freed s else s) (time_slots d))"
    by (rule update_time_slots_ok)
  from assms(1,2,3) have "update_appointment_status today d x st =
      Inr (d\<lparr>time_slots := map (\<lambda>s. if ts_id s = time_slot_id a then mark_freed s else s) (time_slots d),
             appointments := map (\<lambda>b. if a_id b = x then b\<lparr>status := st\<rparr> else b)
                               (appointments d)\<rparr>)"
    by (simp add: release_status_update upd)
  then show ?thesis
    using book_appointment_new_label
    by (simp add: map_status_update_frame mark_freed_def)
qed

text \<open>On day 10, the cancellation of patient 1's reservation of slot 1 frees the
  slot; the next reservation of the doctor for that day gets \<open>A002\<close>.\<close>

lemma release_frees_slot_and_keeps_queue_numbers_example:
  "update_appointment_status 10 clinic_booked 1 cancelled = Inr clinic_cancelled
   \<and> map status (appointments clinic_cancelled) = [cancelled]
   \<and> map queue_number (appointments clinic_cancelled) = [''A001'']
   \<and> map (\<lambda>s. (booked_count s, is_available s))
        (filter (\<lambda>s. ts_id s = 1) (time_slots clinic_cancelled)) = [(0, True)]
   \<and> ticket (book_appointment 10 clinic_cancelled 2 1 1) = Inr (''A002'', 2, 10)"
proof -
  have slots: "time_slots clinic_booked
      = [slot_one\<lparr>is_available := False, booked_count := 1\<rparr>, slot_two, slot_three,
         slot_four, slot_group]"
    by code_simp
  have apps: "appointments clinic_booked = [appt_one]"
    by code_simp
  have c: "active appt_one"
    by (simp add: active_def appt_one_def)
  have ok: "\<forall>s\<in>set (time_slots clinic_booked). ts_id s = time_slot_id appt_one
      \<longrightarrow> 10 \<le> slot_date s \<and> within_capacity s"
    by (simp add: slots within_capacity_def slot_one_def slot_two_def slot_three_def
        slot_four_def slot_group_def appt_one_def)
  have st: "cancelled = cancelled \<or> cancelled = no_show"
    by simp
  from release_frees_slot_and_keeps_queue_numbers [OF find_appt_one c st ok]
  obtain d' where "update_appointment_status 10 clinic_booked 1 cancelled = Inr d'"
    and apps': "appointments d' =
       map (\<lambda>b. if a_id b = 1 then b\<lparr>status := cancelled\<rparr> else b) (appointments clinic_booked)"
    and slots': "time_slots d' =
       map (\<lambda>s. if ts_id s = time_slot_id appt_one
                 then s\<lparr>is_available := True, booked_count := max (booked_count s - 1) 0\<rparr>
                 else s) (time_slots clinic_booked)"
    by blast
  with cancel_appt_one have "d' = clinic_cancelled"
    by simp
  with apps' slots' have d': "appointments clinic_cancelled =
       map (\<lambda>b. if a_id b = 1 then b\<lparr>status := cancelled\<rparr> else b) (appointments clinic_booked)"
    "time_slots clinic_cancelled =
       map (\<lambda>s. if ts_id s = time_slot_id appt_one
                 then s\<lparr>is_available := True, booked_count := max (booked_count s - 1) 0\<rparr>
                 else s) (time_slots clinic_booked)"
    by simp_all
  have "map status (appointments clinic_cancelled) = [cancelled]"
    and "map queue_number (appointments clinic_cancelled) = [''A001'']"
    and "map (\<lambda>s. (booked_count s, is_available s)) (filter (\<lambda>s. ts_id s = 1) (time_slots clinic_cancelled))
         = [(0, True)]"
    by (simp_all add: d' apps slots appt_one_def slot_one_def slot_two_def slot_three_def
        slot_four_def slot_group_def)
  moreover have "ticket (book_appointment 10 clinic_cancelled 2 1 1) = Inr (''A002'', 2, 10)"
    by code_simp
  ultimately show ?thesis
    using cancel_appt_one by (intro conjI)
qed

text \<open>The first row that a search by a test finds is the first row of the filter
  by that test.\<close>

lemma find_Some_filter:
  "List.find P xs = Some x \<Longrightarrow> \<exists>ys. filter P xs = x # ys"
  by (induction xs) (auto split: if_splits)

text \<open>The release of a slot that is dated before today breaks
  \<^verbatim>\<open>future_slots_only\<close>, the first check of the row.\<close>

lemma release_past_slot:
  assumes "List.find (\<lambda>s. ts_id s = p) slots = Some s" and "slot_date s < today"
  shows "update_time_slots today p mark_freed slots = Inl (CheckViolation ''future_slots_only'')"
proof -
  from find_Some_filter [OF assms(1)] obtain ys where "filter (\<lambda>s. ts_id s = p) slots = s # ys"
    by blast
  moreover from assms(2) have "time_slots_check today (mark_freed s) = Some (CheckViolation ''future_slots_only'')"
    by (simp add: time_slots_check_def)
  ultimately show ?thesis
    by (simp add: update_time_slots_def List.map_filter_simps)
qed

text \<open>
  Every successful reservation of a slot adds one to its \<open>booked_count\<close>
  and sets \<open>is_available\<close> to false, whether or not the capacity is reached; the new
  \<open>booked_count\<close> does not exceed \<open>max_patients\<close>; every later reservation of that slot
  is refused as not available; and in any database a slot whose \<open>booked_count\<close> has
  reached \<open>max_patients\<close> cannot be reserved.
\<close>

lemma reserve_closes_slot_and_counts:
  assumes "book_appointment today d pat doc p = Inr (a, d')"
  shows "time_slots d' =
           map (\<lambda>s. if ts_id s = p
                     then s\<lparr>is_available := False, booked_count := booked_count s + 1\<rparr> else s)
             (time_slots d)
         \<and> (\<forall>s\<in>set (time_slots d'). ts_id s = p \<longrightarrow> booked_count s \<le> max_patients s)
         \<and> book_appointment today' d' pat' doc' p = Inl slot_not_available
         \<and> (\<forall>s2. List.find (\<lambda>s. ts_id s = p2) (time_slots d2) = Some s2
                   \<and> max_patients s2 \<le> booked_count s2
               \<longrightarrow> (\<exists>e. book_appointment today2 d2 pat2 doc2 p2 = Inl e))"
proof (intro conjI ballI allI impI)
  from book_appointment_slots(1) [OF assms]
  show "time_slots d' =
           map (\<lambda>s. if ts_id s = p
                     then s\<lparr>is_available := False, booked_count := booked_count s + 1\<rparr> else s)
             (time_slots d)"
    by (simp add: mark_booked_def)
next
  fix s' assume s': "s' \<in> set (time_slots d')" "ts_id s' = p"
  have "set (time_slots d') = (\<lambda>s. if ts_id s = p then mark_booked s else s) ` set (time_slots d)"
    by (subst book_appointment_slots(1) [OF assms]) simp
  with s' obtain s where s: "s \<in> set (time_slots d)" "s' = (if ts_id s = p then mark_booked s else s)"
    by blast
  show "booked_count s' \<le> max_patients s'"
  proof (cases "ts_id s = p")
    case True
    with s book_appointment_slots(2) [OF assms] have "booked_count s + 1 \<le> max_patients s"
      by blast
    with True s show ?thesis by simp
  next
    case False
    with s s' show ?thesis by simp
  qed
next
  show "book_appointment today' d' pat' doc' p = Inl slot_not_available"
    using assms by (rule book_appointment_closes_slot)
next
  fix s2
  assume "List.find (\<lambda>s. ts_id s = p2) (time_slots d2) = Some s2 \<and> max_patients s2 \<le> booked_count s2"
  then show "\<exists>e. book_appointment today2 d2 pat2 doc2 p2 = Inl e"
    using book_appointment_full_or_past by blast
qed

text \<open>The slot for two after its first reservation, and the slot reopened by hand
  with its counter at the capacity.\<close>

lemma reserve_closes_slot_and_counts_example:
  "map (\<lambda>s. (max_patients s, booked_count s, is_available s))
     (filter (\<lambda>s. ts_id s = 5) (time_slots clinic_group_booked)) = [(2, 1, False)]
   \<and> book_appointment 10 clinic_group_booked 2 1 5 = Inl slot_not_available
   \<and> (\<exists>e. book_appointment 10 clinic_reopened 2 1 1 = Inl e)
   \<and> book_appointment 10 clinic_reopened 2 1 1 = Inl (CheckViolation ''valid_capacity'')"
proof -
  note r = reserve_closes_slot_and_counts
             [OF book_group_slot, of 10 2 1 1 clinic_reopened 10 2 1]
  from r have "time_slots clinic_group_booked =
           map (\<lambda>s. if ts_id s = 5
                     then s\<lparr>is_available := False, booked_count := booked_count s + 1\<rparr> else s)
             (time_slots clinic)"
    by blast
  then have "map (\<lambda>s. (max_patients s, booked_count s, is_available s))
     (filter (\<lambda>s. ts_id s = 5) (time_slots clinic_group_booked)) = [(2, 1, False)]"
    by (simp add: clinic_def slot_one_def slot_two_def slot_three_def slot_four_def slot_group_def)
  moreover from r have "book_appointment 10 clinic_group_booked 2 1 5 = Inl slot_not_available"
    by blast
  moreover have "max_patients (slot_one\<lparr>booked_count := 1\<rparr>) \<le> booked_count (slot_one\<lparr>booked_count := 1\<rparr>)"
    by (simp add: slot_one_def)
  with r find_reopened have "\<exists>e. book_appointment 10 clinic_reopened 2 1 1 = Inl e"
    by blast
  moreover have "book_appointment 10 clinic_reopened 2 1 1 = Inl (CheckViolation ''valid_capacity'')"
    by code_simp
  ultimately show ?thesis by simp
qed

section \<open>The claims\<close>




text \<open>
  C2. The next sequence is one more than the largest sequence among the doctor's
  appointments that were \<^emph>\<open>created\<close> on the slot's day
  (\<^verbatim>\<open>DATE(created_at) = p_date\<close>), not among those \<^emph>\<open>queued\<close> for that day:
  the sequence computed is the same whatever the queue days of the stored
  appointments are.
  On day 10, with no appointment yet: a reservation of doctor 1 for day 11 gets
  sequence 1; then a reservation for day 10 gets sequence 2 and \<open>A002\<close> although
  doctor 1 has no appointment for day 10 (the maximum plus one is 1); and a second
  reservation for day 11 is computed as \<open>A001\<close> again and refused by the unique
  constraint \<^verbatim>\<open>unique_queue_number\<close>, instead of getting sequence 2.
\<close>

theorem sequence_counts_by_booking_day:
  "next_sequence (map (\<lambda>a. a\<lparr>queue_date := f a\<rparr>) apps) p_doctor_id p_date
     = next_sequence apps p_doctor_id p_date
   \<and> ticket (book_appointment 10 clinic 1 1 3) = Inr (''A001'', 1, 11)
   \<and> filter (\<lambda>a. doctor_id a = 1 \<and> queue_date a = 10) (appointments clinic_advance_booked) = []
   \<and> ticket (book_appointment 10 clinic_advance_booked 2 1 1) = Inr (''A002'', 2, 10)
   \<and> ticket (book_appointment 10 clinic_advance_booked 2 1 4)
       = Inl (UniqueViolation ''unique_queue_number'')"
proof -
  have "ticket (book_appointment 10 clinic 1 1 3) = Inr (''A001'', 1, 11)"
    by code_simp
  moreover have
    "filter (\<lambda>a. doctor_id a = 1 \<and> queue_date a = 10) (appointments clinic_advance_booked) = []"
    by code_simp
  moreover have "ticket (book_appointment 10 clinic_advance_booked 2 1 1) = Inr (''A002'', 2, 10)"
    by code_simp
  moreover have "ticket (book_appointment 10 clinic_advance_booked 2 1 4)
       = Inl (UniqueViolation ''unique_queue_number'')"
    by code_simp
  ultimately show ?thesis
    by (simp only: next_sequence_ignores_queue_date simp_thms)
qed

theorem sequence_counts_by_booking_day_witness:
  "ticket (book_appointment 10 clinic_advance_booked 2 1 4)
     = Inl (UniqueViolation ''unique_queue_number'')"
  using sequence_counts_by_booking_day by simp

text \<open>
  C3. \<open>advance_queue\<close> reads the next arrived appointment without a lock and
  writes afterwards. When two calls for doctor 1 both read before either writes,
  both read appointment 1; the first call starts it, and the second call starts
  the same appointment again (its update names the appointment by id only): both
  return the queue row pointing at appointment 1, which was started twice with no
  completion in between, and appointment 2 is still waiting. (A call that starts
  after the first has finished reads and starts appointment 2.)
\<close>

theorem concurrent_advance_starts_same_appointment:
  "next_in_queue 10 clinic_waiting 1 = Some arrived_one
   \<and> start_consultation 10 clinic_waiting 1 arrived_one
       = Inr (Some (set_now_serving arrived_one queue_row), clinic_first_started)
   \<and> start_consultation 10 clinic_first_started 1 arrived_one
       = Inr (Some (set_now_serving arrived_one queue_row), clinic_first_started)
   \<and> map status (appointments clinic_first_started) = [in_consultation, arrived]
   \<and> map_sum id (map_option current_appointment_id \<circ> fst)
         (advance_queue 10 clinic_first_started 1) = Inr (Some (Some 2))"
proof -
  have "next_in_queue 10 clinic_waiting 1 = Some arrived_one"
    by code_simp
  moreover have "start_consultation 10 clinic_waiting 1 arrived_one
       = Inr (Some (set_now_serving arrived_one queue_row), clinic_first_started)"
    by code_simp
  moreover have "start_consultation 10 clinic_first_started 1 arrived_one
       = Inr (Some (set_now_serving arrived_one queue_row), clinic_first_started)"
    by code_simp
  moreover have "map status (appointments clinic_first_started) = [in_consultation, arrived]"
    by code_simp
  moreover have "map_sum id (map_option current_appointment_id \<circ> fst)
         (advance_queue 10 clinic_first_started 1) = Inr (Some (Some 2))"
    by code_simp
  ultimately show ?thesis by simp
qed

theorem concurrent_advance_starts_same_appointment_witness:
  "start_consultation 10 clinic_first_started 1 arrived_one
     = Inr (Some (set_now_serving arrived_one queue_row), clinic_first_started)"
  using concurrent_advance_starts_same_appointment by simp

text \<open>
  C4. The handler of \<^verbatim>\<open>api/appointments/book\<close> is not atomic: whatever the insert
  and the unlock do, the first state it commits is the one that \<open>lock_time_slot\<close>
  leaves, in which slot 1 is marked unavailable and no appointment exists.
\<close>

theorem handler_commits_locked_slot_without_appointment:
  "fst (handler_book 10 clinic 1 insert_row unlock) \<noteq> 409
   \<and> hd (snd (handler_book 10 clinic 1 insert_row unlock)) = clinic_slot_locked
   \<and> appointments clinic_slot_locked = []
   \<and> map is_available (filter (\<lambda>s. ts_id s = 1) (time_slots clinic_slot_locked)) = [False]"
proof -
  have "appointments clinic_slot_locked = []"
    by code_simp
  moreover have
    "map is_available (filter (\<lambda>s. ts_id s = 1) (time_slots clinic_slot_locked)) = [False]"
    by code_simp
  ultimately show ?thesis
    by (cases "insert_row slot_one clinic_slot_locked")
      (simp_all add: handler_book_def lock_slot_one del: One_nat_def)
qed

theorem handler_commits_locked_slot_without_appointment_witness:
  "handler_book 10 clinic 1 (\<lambda>slot d. Inl (NotNullViolation ''queue_sequence'')) id
     = (500, [clinic_slot_locked, clinic_slot_locked])
   \<and> appointments clinic_slot_locked = []"
  using handler_commits_locked_slot_without_appointment
          [of "\<lambda>slot d. Inl (NotNullViolation ''queue_sequence'')" id]
  by (simp add: handler_book_def lock_slot_one del: One_nat_def)

text \<open>
  C5. The handler of \<^verbatim>\<open>api/queue/next\<close> keeps the appointments that were
  \<^emph>\<open>created\<close> today or later, not those \<^emph>\<open>queued\<close> for today: whenever all arrived
  appointments of the doctor were booked before today, it answers 404 with the
  error \<open>No patients in queue\<close> and starts nobody. Patient 1 booked slot 1 of day
  10 on day 9 and has arrived on day 10: the appointment is the doctor's arrived
  appointment of today (by its queue day and by the date of its slot), the SQL
  function \<open>advance_queue\<close> starts it, and the handler answers 404. It answers an empty queue with the same 404 and error body
  (and writes nothing).
\<close>

theorem queue_next_handler_misses_earlier_booking:
  "((\<forall>a\<in>set (appointments d). doctor_id a = p \<and> status a = arrived \<longrightarrow> created_at a < today)
      \<longrightarrow> handler_queue_next today d p = ((404, ''No patients in queue''), []))
   \<and> appointments clinic_booked_before = [arrived_one\<lparr>created_at := 9\<rparr>]
   \<and> map slot_date (filter (\<lambda>s. ts_id s = 1) (time_slots clinic_booked_before)) = [10]
   \<and> list_ex (waiting 10 1) (appointments clinic_booked_before)
   \<and> map_sum id (map_option current_appointment_id \<circ> fst)
         (advance_queue 10 clinic_booked_before 1) = Inr (Some (Some 1))
   \<and> handler_queue_next 10 clinic_booked_before 1 = ((404, ''No patients in queue''), [])
   \<and> handler_queue_next 10 clinic 1 = ((404, ''No patients in queue''), [])"
proof -
  have general: "(\<forall>a\<in>set (appointments d). doctor_id a = p \<and> status a = arrived \<longrightarrow> created_at a < today)
      \<longrightarrow> handler_queue_next today d p = ((404, ''No patients in queue''), [])"
  proof
    assume "\<forall>a\<in>set (appointments d). doctor_id a = p \<and> status a = arrived \<longrightarrow> created_at a < today"
    then have "filter (\<lambda>a. doctor_id a = p \<and> status a = arrived \<and> today \<le> created_at a)
                 (appointments d) = []"
      by (auto simp: filter_empty_conv)
    then have "nextAppointment today d p = None"
      by (simp add: nextAppointment_def)
    then show "handler_queue_next today d p = ((404, ''No patients in queue''), [])"
      by (simp add: handler_queue_next_def)
  qed
  have apps: "appointments clinic_booked_before = [arrived_one\<lparr>created_at := 9\<rparr>]"
    by code_simp
  have day: "map slot_date (filter (\<lambda>s. ts_id s = 1) (time_slots clinic_booked_before)) = [10]"
    by code_simp
  have waits: "list_ex (waiting 10 1) (appointments clinic_booked_before)"
    by code_simp
  have sql: "map_sum id (map_option current_appointment_id \<circ> fst)
         (advance_queue 10 clinic_booked_before 1) = Inr (Some (Some 1))"
    by code_simp
  have handler: "handler_queue_next 10 clinic_booked_before 1 = ((404, ''No patients in queue''), [])"
    by code_simp
  have empty: "handler_queue_next 10 clinic 1 = ((404, ''No patients in queue''), [])"
    by code_simp
  from general apps day waits sql handler empty show ?thesis
    by (intro conjI)
qed

theorem queue_next_handler_misses_earlier_booking_witness:
  "list_ex (waiting 10 1) (appointments clinic_booked_before)
   \<and> next_in_queue 10 clinic_booked_before 1 = Some (arrived_one\<lparr>created_at := 9\<rparr>)
   \<and> handler_queue_next 10 clinic_booked_before 1 = ((404, ''No patients in queue''), [])"
proof -
  note r = queue_next_handler_misses_earlier_booking [of clinic_booked_before 1 10]
  from r have apps: "appointments clinic_booked_before = [arrived_one\<lparr>created_at := 9\<rparr>]"
    by blast
  then have "\<forall>a\<in>set (appointments clinic_booked_before).
      doctor_id a = 1 \<and> status a = arrived \<longrightarrow> created_at a < 10"
    by simp
  with r have "handler_queue_next 10 clinic_booked_before 1 = ((404, ''No patients in queue''), [])"
    by blast
  moreover from r have "list_ex (waiting 10 1) (appointments clinic_booked_before)"
    by blast
  moreover have "next_in_queue 10 clinic_booked_before 1 = Some (arrived_one\<lparr>created_at := 9\<rparr>)"
    by code_simp
  ultimately show ?thesis
    by (intro conjI)
qed

text \<open>
  C6, as the claim states it, fails: \<open>book_appointment\<close> never compares the slot's
  doctor with \<open>p_doctor_id\<close> and has no test of the slot's date. Doctor 1 reserves
  slot 2, which belongs to doctor 2, and the call succeeds; a slot dated before
  today is refused by the check constraint \<^verbatim>\<open>future_slots_only\<close> when the trigger
  updates the slot, not by an error of its own.
\<close>

theorem reserve_other_doctors_or_past_slot_counterexample:
  "ts_doctor_id slot_two = 2
   \<and> ticket (book_appointment 10 clinic 1 1 2) = Inr (''A001'', 1, 10)
   \<and> ticket (book_appointment 11 clinic 1 1 1) = Inl (CheckViolation ''future_slots_only'')"
  by code_simp

text \<open>
  C6, amended. \<open>book_appointment\<close> raises its one exception, \<open>Slot is not available\<close>,
  exactly when no slot has the id, or the slot is flagged unavailable, or it is
  blocked; the slot's doctor and date play no part in that test. A slot that
  passes the test but is dated before today, or whose \<open>booked_count\<close> has reached
  \<open>max_patients\<close>, is still refused, by an error that is not that exception (a
  constraint violation). The doctor of the slot is never read: replacing the
  doctors of all slots before the call gives the result of replacing them after it.
\<close>

theorem reserve_raises_one_untyped_error:
  "((book_appointment today d pat doc p = Inl slot_not_available) \<longleftrightarrow>
      (case List.find (\<lambda>s. ts_id s = p) (time_slots d) of
         None \<Rightarrow> True
       | Some s \<Rightarrow> \<not> is_available s \<or> is_blocked s))
   \<and> (\<forall>s. List.find (\<lambda>s. ts_id s = p) (time_slots d) = Some s \<and> is_available s \<and> \<not> is_blocked s
            \<and> (slot_date s < today \<or> max_patients s \<le> booked_count s)
          \<longrightarrow> (\<exists>e. book_appointment today d pat doc p = Inl e \<and> e \<noteq> slot_not_available))
   \<and> book_appointment today (reassign h d) pat doc p
       = map_sum id (\<lambda>(a, d'). (a, reassign h d')) (book_appointment today d pat doc p)"
proof (intro conjI allI impI)
  show "(book_appointment today d pat doc p = Inl slot_not_available) \<longleftrightarrow>
      (case List.find (\<lambda>s. ts_id s = p) (time_slots d) of
         None \<Rightarrow> True
       | Some s \<Rightarrow> \<not> is_available s \<or> is_blocked s)"
    by (rule book_appointment_closed)
next
  fix s
  assume a: "List.find (\<lambda>s. ts_id s = p) (time_slots d) = Some s \<and> is_available s \<and> \<not> is_blocked s
            \<and> (slot_date s < today \<or> max_patients s \<le> booked_count s)"
  then obtain e where e: "book_appointment today d pat doc p = Inl e"
    using book_appointment_full_or_past by blast
  from a have "book_appointment today d pat doc p \<noteq> Inl slot_not_available"
    by (simp add: book_appointment_closed)
  with e show "\<exists>e. book_appointment today d pat doc p = Inl e \<and> e \<noteq> slot_not_available"
    by auto
next
  show "book_appointment today (reassign h d) pat doc p
       = map_sum id (\<lambda>(a, d'). (a, reassign h d')) (book_appointment today d pat doc p)"
    by (rule book_appointment_reassign)
qed

theorem reserve_raises_one_untyped_error_witness:
  "book_appointment 10 clinic 1 1 7 = Inl slot_not_available
   \<and> (\<exists>e. book_appointment 11 clinic 1 1 1 = Inl e \<and> e \<noteq> slot_not_available)"
proof -
  have f7: "List.find (\<lambda>s. ts_id s = 7) (time_slots clinic) = None"
    by code_simp
  have f1: "List.find (\<lambda>s. ts_id s = 1) (time_slots clinic) = Some slot_one"
    by code_simp
  have s1: "is_available slot_one \<and> \<not> is_blocked slot_one \<and> slot_date slot_one < 11"
    by (simp add: slot_one_def)
  from reserve_raises_one_untyped_error [of 10 clinic 1 1 7] f7
  have "book_appointment 10 clinic 1 1 7 = Inl slot_not_available"
    by simp
  moreover from reserve_raises_one_untyped_error [of 11 clinic 1 1 1] f1 s1
  have "\<exists>e. book_appointment 11 clinic 1 1 1 = Inl e \<and> e \<noteq> slot_not_available"
    by blast
  ultimately show ?thesis by simp
qed

text \<open>
  C7. The trigger frees the slot of an appointment that becomes \<open>cancelled\<close> or
  \<open>no_show\<close> by an update of the slot row, and PostgreSQL checks the updated row
  against \<^verbatim>\<open>future_slots_only CHECK (slot_date >= CURRENT_DATE)\<close>. For an
  appointment that holds a slot dated before today the check fails, the trigger
  aborts the status update, and the appointment can be neither cancelled nor
  marked a no-show: its status, the slot's counter and the slot's flag stay as
  they were. So it is for the confirmed appointment of slot 1 (day 10) on day 11.
\<close>

theorem release_of_past_slot_is_rejected:
  assumes "List.find (\<lambda>b. a_id b = x) (appointments d) = Some a"
    and "active a"
    and "List.find (\<lambda>s. ts_id s = time_slot_id a) (time_slots d) = Some s"
    and "slot_date s < today"
  shows "update_appointment_status today d x cancelled = Inl (CheckViolation ''future_slots_only'')
         \<and> update_appointment_status today d x no_show = Inl (CheckViolation ''future_slots_only'')"
proof -
  have "update_time_slots today (time_slot_id a) mark_freed (time_slots d)
      = Inl (CheckViolation ''future_slots_only'')"
    using assms(3,4) by (rule release_past_slot)
  with assms(1,2) show ?thesis
    by (simp add: release_status_update)
qed

theorem release_of_past_slot_is_rejected_witness:
  "List.find (\<lambda>b. a_id b = 1) (appointments clinic_booked) = Some appt_one
   \<and> status appt_one = confirmed
   \<and> map slot_date (filter (\<lambda>s. ts_id s = 1) (time_slots clinic_booked)) = [10]
   \<and> update_appointment_status 11 clinic_booked 1 cancelled = Inl (CheckViolation ''future_slots_only'')
   \<and> update_appointment_status 11 clinic_booked 1 no_show = Inl (CheckViolation ''future_slots_only'')"
proof -
  have a: "active appt_one" "status appt_one = confirmed"
    by (simp_all add: active_def appt_one_def)
  have s: "List.find (\<lambda>s. ts_id s = time_slot_id appt_one) (time_slots clinic_booked)
      = Some (slot_one\<lparr>is_available := False, booked_count := 1\<rparr>)"
    by code_simp
  have past: "slot_date (slot_one\<lparr>is_available := False, booked_count := 1\<rparr>) < 11"
    by (simp add: slot_one_def)
  have day: "map slot_date (filter (\<lambda>s. ts_id s = 1) (time_slots clinic_booked)) = [10]"
    by code_simp
  from release_of_past_slot_is_rejected [OF find_appt_one a(1) s past] find_appt_one a(2) day
  show ?thesis
    by (intro conjI) simp_all
qed

text \<open>
  C8. The queue number of a reservation is a letter followed by the sequence padded
  with zeros to three digits, but the letter is not specific to the doctor: for
  every table of doctors and every doctor in it the prefix is \<open>A\<close> (the row number
  is computed after the filter on the doctor's id). In the clinic with two doctors,
  the first reservation of doctor 1 and the first reservation of doctor 2 both get
  \<open>A001\<close>, where the comment in the function promises \<open>B\<close> for the second doctor.
\<close>

theorem every_doctor_gets_prefix_A:
  "doctor_prefix ds p = (if list_ex (\<lambda>d. d_id d = p) ds then Some (CHR ''A'') else None)
   \<and> ticket (book_appointment 10 clinic 1 1 1) = Inr (''A001'', 1, 10)
   \<and> ticket (book_appointment 10 clinic 2 2 2) = Inr (''A001'', 1, 10)"
proof -
  have "ticket (book_appointment 10 clinic 1 1 1) = Inr (''A001'', 1, 10)"
    by code_simp
  moreover have "ticket (book_appointment 10 clinic 2 2 2) = Inr (''A001'', 1, 10)"
    by code_simp
  ultimately show ?thesis
    by (simp add: doctor_prefix_A)
qed

theorem every_doctor_gets_prefix_A_witness:
  "doctor_prefix [doctor_one, doctor_two] 2 = Some (CHR ''A'')
   \<and> ticket (book_appointment 10 clinic 2 2 2) = Inr (''A001'', 1, 10)"
  using every_doctor_gets_prefix_A [of "[doctor_one, doctor_two]" 2]
  by (simp add: doctor_one_def doctor_two_def)

text \<open>
  C9. The trigger sets \<open>is_available\<close> to false on every insert of an appointment,
  whether or not \<open>booked_count\<close> has reached \<open>max_patients\<close>: after a successful
  reservation every row of the slot is flagged unavailable. Slot 5 has
  \<open>max_patients = 2\<close>; its first reservation leaves \<open>booked_count = 1\<close>, below the
  capacity, and the slot unavailable, and the reservation of a second patient is
  refused with \<open>Slot is not available\<close>: a slot for more than one patient never
  takes its second patient.
\<close>

theorem first_reservation_closes_slot_below_capacity:
  "(book_appointment today d pat doc p = Inr (a, d') \<longrightarrow>
      (\<forall>s\<in>set (time_slots d'). ts_id s = p \<longrightarrow> \<not> is_available s))
   \<and> map (\<lambda>s. (max_patients s, booked_count s, is_available s))
        (filter (\<lambda>s. ts_id s = 5) (time_slots clinic)) = [(2, 0, True)]
   \<and> book_appointment 10 clinic 1 1 5 = Inr (appt_one\<lparr>time_slot_id := 5\<rparr>, clinic_group_booked)
   \<and> map (\<lambda>s. (max_patients s, booked_count s, is_available s))
        (filter (\<lambda>s. ts_id s = 5) (time_slots clinic_group_booked)) = [(2, 1, False)]
   \<and> book_appointment 10 clinic_group_booked 2 1 5 = Inl slot_not_available"
proof -
  have closes: "book_appointment today d pat doc p = Inr (a, d') \<longrightarrow>
      (\<forall>s\<in>set (time_slots d'). ts_id s = p \<longrightarrow> \<not> is_available s)"
  proof (intro impI ballI)
    fix s' assume ok: "book_appointment today d pat doc p = Inr (a, d')"
      and s': "s' \<in> set (time_slots d')" "ts_id s' = p"
    have "set (time_slots d') = (\<lambda>s. if ts_id s = p then mark_booked s else s) ` set (time_slots d)"
      by (subst book_appointment_slots(1) [OF ok]) simp
    with s' obtain s where "s' = (if ts_id s = p then mark_booked s else s)"
      by blast
    with s'(2) show "\<not> is_available s'"
      by (cases "ts_id s = p") simp_all
  qed
  have before: "map (\<lambda>s. (max_patients s, booked_count s, is_available s))
        (filter (\<lambda>s. ts_id s = 5) (time_slots clinic)) = [(2, 0, True)]"
    by code_simp
  have after: "map (\<lambda>s. (max_patients s, booked_count s, is_available s))
        (filter (\<lambda>s. ts_id s = 5) (time_slots clinic_group_booked)) = [(2, 1, False)]"
    by code_simp
  have second: "book_appointment 10 clinic_group_booked 2 1 5 = Inl slot_not_available"
    by code_simp
  from closes before book_group_slot after second show ?thesis
    by (intro conjI)
qed

theorem first_reservation_closes_slot_below_capacity_witness:
  "book_appointment 10 clinic 1 1 5 = Inr (appt_one\<lparr>time_slot_id := 5\<rparr>, clinic_group_booked)
   \<and> list_all (\<lambda>s. \<not> is_available s) (filter (\<lambda>s. ts_id s = 5) (time_slots clinic_group_booked))
   \<and> map (\<lambda>s. (max_patients s, booked_count s, is_available s))
        (filter (\<lambda>s. ts_id s = 5) (time_slots clinic_group_booked)) = [(2, 1, False)]
   \<and> book_appointment 10 clinic_group_booked 2 1 5 = Inl slot_not_available"
proof -
  note r = first_reservation_closes_slot_below_capacity
             [of 10 clinic 1 1 5 "appt_one\<lparr>time_slot_id := 5\<rparr>" clinic_group_booked]
  from r book_group_slot
  have "\<forall>s\<in>set (time_slots clinic_group_booked). ts_id s = 5 \<longrightarrow> \<not> is_available s"
    by blast
  then have "list_all (\<lambda>s. \<not> is_available s)
        (filter (\<lambda>s. ts_id s = 5) (time_slots clinic_group_booked))"
    by (simp add: list_all_iff)
  moreover from r have "map (\<lambda>s. (max_patients s, booked_count s, is_available s))
        (filter (\<lambda>s. ts_id s = 5) (time_slots clinic_group_booked)) = [(2, 1, False)]"
    by blast
  moreover from r have "book_appointment 10 clinic_group_booked 2 1 5 = Inl slot_not_available"
    by blast
  ultimately show ?thesis
    using book_group_slot by (intro conjI)
qed

text \<open>
  C10. For every sequence of appointment inserts and status updates that the
  slot-availability trigger processes, the counter \<open>booked_count\<close> of every time slot
  stays between 0 and \<open>max_patients\<close>, provided it was there at the start: the
  release branch writes \<^verbatim>\<open>GREATEST(booked_count - 1, 0)\<close>, which is never
  negative (also when the counter is already 0), and the check constraint
  \<^verbatim>\<open>valid_capacity\<close> refuses an update that would exceed \<open>max_patients\<close>.
\<close>

theorem booked_count_stays_within_capacity:
  assumes "\<forall>s\<in>set slots. within_capacity s"
  shows "(\<forall>s\<in>set (run_trigger evs slots). within_capacity s)
         \<and> 0 \<le> booked_count (mark_freed s0)"
  using run_trigger_bounds [OF assms] by simp

theorem booked_count_stays_within_capacity_witness:
  "list_all within_capacity (run_trigger trigger_events [slot_one])
   \<and> map booked_count (run_trigger (take 1 trigger_events) [slot_one]) = [0]
   \<and> map booked_count (run_trigger trigger_events [slot_one]) = [1]"
proof -
  have h: "\<forall>s\<in>set [slot_one]. within_capacity s"
    by (simp add: within_capacity_def slot_one_def)
  from booked_count_stays_within_capacity [OF h, of trigger_events]
  have "list_all within_capacity (run_trigger trigger_events [slot_one])"
    by (simp add: list_all_iff)
  moreover have "map booked_count (run_trigger (take 1 trigger_events) [slot_one]) = [0]"
    by code_simp
  moreover have "map booked_count (run_trigger trigger_events [slot_one]) = [1]"
    by code_simp
  ultimately show ?thesis by simp
qed

end
